theory Spec2Isabelle
  imports Complex_Main "HOL-Library.Word" "HOL-Library.Sublist"
begin

section \<open>JavaScript strings\<close>

text \<open>
  A JavaScript string is modelled as a \<^typ>\<open>string\<close>, one \<^typ>\<open>char\<close> per code unit
  (code units below 256). The functions below are the methods of \<^verbatim>\<open>String.prototype\<close>
  that the server and the client call.
\<close>

text \<open>\<^verbatim>\<open>s.startsWith(p)\<close>\<close>

fun startsWith :: "string \<Rightarrow> string \<Rightarrow> bool" where
  "startsWith s [] = True"
| "startsWith [] (c # cs) = False"
| "startsWith (x # xs) (c # cs) = (x = c \<and> startsWith xs cs)"

text \<open>\<^verbatim>\<open>s.includes(sub)\<close>: \<open>sub\<close> occurs at some position of \<open>s\<close>.\<close>

fun str_includes :: "string \<Rightarrow> string \<Rightarrow> bool" where
  "str_includes [] sub = (sub = [])"
| "str_includes (x # xs) sub = (startsWith (x # xs) sub \<or> str_includes xs sub)"

text \<open>
  The white space that \<^verbatim>\<open>s.trim()\<close> removes, among the code units below 256: TAB, LF, VT,
  FF, CR, SPACE and NBSP.
\<close>

definition is_ws :: "char \<Rightarrow> bool" where
  "is_ws c = (of_char c \<in> {9, 10, 11, 12, 13, 32, 160 :: nat})"

definition trim :: "string \<Rightarrow> string" where
  "trim s = rev (dropWhile is_ws (rev (dropWhile is_ws s)))"

text \<open>\<^verbatim>\<open>s.split(d)\<close> for a one-character separator: never the empty array.\<close>

fun split_on :: "char \<Rightarrow> string \<Rightarrow> string list" where
  "split_on d [] = [[]]"
| "split_on d (c # cs) =
     (if c = d then [] # split_on d cs
      else (case split_on d cs of [] \<Rightarrow> [[c]] | p # ps \<Rightarrow> (c # p) # ps))"

text \<open>\<^verbatim>\<open>xs[1]\<close>: \<open>None\<close> is \<^verbatim>\<open>undefined\<close>, what an index out of range gives.\<close>

definition index1 :: "'a list \<Rightarrow> 'a option" where
  "index1 xs = (if 1 < length xs then Some (xs ! 1) else None)"

text \<open>The decimal digits of a number, as a template literal prints it.\<close>

fun string_of_nat :: "nat \<Rightarrow> string" where
  "string_of_nat n =
     (if n < 10 then [char_of (48 + n)]
      else string_of_nat (n div 10) @ [char_of (48 + n mod 10)])"

text \<open>
  The truth value of a field that is either absent (\<^verbatim>\<open>undefined\<close>) or a string: only a
  non-empty string is truthy.
\<close>

definition truthy :: "string option \<Rightarrow> bool" where
  "truthy v = (case v of None \<Rightarrow> False | Some s \<Rightarrow> s \<noteq> [])"


section \<open>HTTP messages and thrown values\<close>

text \<open>
  A JSON object whose values are strings, as both endpoints exchange them:
  the list of its keys and values. \<open>map_of\<close> reads a property.
\<close>

type_synonym json_object = "(string \<times> string) list"

text \<open>
  A thrown value: an instance of \<^verbatim>\<open>Error\<close> with its message, or anything else.
\<close>

datatype js_error = Error string | NonError

record http_request =
  endpoint :: string
  http_method :: string
  content_type :: string
  request_body :: json_object

text \<open>
  \<open>json\<close> is what \<^verbatim>\<open>response.json()\<close> settles to: the parsed object, or the rejection
  when the body is not JSON.
\<close>

record http_response =
  status :: nat
  json :: "js_error + json_object"

definition res_status_json :: "nat \<Rightarrow> json_object \<Rightarrow> http_response" where
  "res_status_json code obj = \<lparr>status = code, json = Inr obj\<rparr>"


section \<open>The backend (server.js)\<close>

datatype part = InlineData string string | TextPart string

datatype modality = IMAGE | TEXT

record generateContent_params =
  model :: string
  parts :: "part list"
  systemInstruction :: string
  responseModalities :: "modality list"

text \<open>
  What the handler reads of the model's answer: the parts of the first candidate
  (\<^verbatim>\<open>response.candidates?.[0]?.content?.parts\<close>, \<open>None\<close> when any link is missing), each
  with its \<^verbatim>\<open>inlineData?.data\<close> , and \<^verbatim>\<open>response.text\<close>.
\<close>

record response_part =
  inlineData_data :: "string option"

record generateContent_response =
  candidate_parts :: "response_part list option"
  response_text :: "string option"

record generateImages_params =
  images_model :: string
  images_prompt :: string
  numberOfImages :: nat
  outputMimeType :: string
  images_aspectRatio :: string

text \<open>\<^verbatim>\<open>response.generatedImages?.[0]?.image?.imageBytes\<close>\<close>

record generateImages_response =
  imageBytes :: "string option"

definition handleApiErrorResponse :: "js_error \<Rightarrow> http_response" where
  "handleApiErrorResponse err =
     (case err of
        Error message \<Rightarrow>
          if str_includes message ''API key not valid''
          then res_status_json 401 [(''error'', ''The provided API key is not valid.'')]
          else if str_includes message ''429''
          then res_status_json 429 [(''error'', ''API rate limit exceeded. Please try again later.'')]
          else if startsWith message ''Image generation failed:''
          then res_status_json 400 [(''error'', message)]
          else res_status_json 500 [(''error'', ''Failed to process request due to an API error.'')]
      | NonError \<Rightarrow>
          res_status_json 500 [(''error'', ''Failed to process request due to an API error.'')])"

definition generate_request :: "json_object \<Rightarrow> http_response + generateImages_params" where
  "generate_request body =
     (case (map_of body ''prompt'', map_of body ''aspectRatio'') of
        (Some p, Some ar) \<Rightarrow>
          if p = [] \<or> ar = []
          then Inl (res_status_json 400 [(''error'', ''Prompt and aspect ratio are required.'')])
          else Inr \<lparr>images_model = ''imagen-4.0-generate-001'', images_prompt = p,
                    numberOfImages = 1, outputMimeType = ''image/jpeg'',
                    images_aspectRatio = ar\<rparr>
      | _ \<Rightarrow> Inl (res_status_json 400 [(''error'', ''Prompt and aspect ratio are required.'')]))"

definition generate_route ::
  "(generateImages_params \<Rightarrow> js_error + generateImages_response) \<Rightarrow> json_object \<Rightarrow> http_response" where
  "generate_route ai body =
     (case generate_request body of
        Inl res \<Rightarrow> res
      | Inr params \<Rightarrow>
          (case ai params of
             Inl err \<Rightarrow> handleApiErrorResponse err
           | Inr response \<Rightarrow>
               (case imageBytes response of
                  Some bytes \<Rightarrow>
                    if bytes \<noteq> []
                    then res_status_json 200 [(''imageBase64'', bytes)]
                    else handleApiErrorResponse (Error ''No image data received from the API.'')
                | None \<Rightarrow> handleApiErrorResponse (Error ''No image data received from the API.''))))"

definition mask_instruction :: "string \<Rightarrow> string" where
  "mask_instruction p =
     ''Using the provided black and white mask image, apply the following edit only to the BLACK areas of the original image, leaving the white areas unchanged: ''
       @ [CHR 0x22] @ p @ [CHR 0x22]"

definition edit_systemInstruction :: string where
  "edit_systemInstruction =
     ''You are an expert AI image editor. Your task is to take the user'' @ [CHR 0x27] @
     ''s image and their text prompt as a direct instruction to modify the image. If a black and white mask image is also provided, you MUST only apply the edits described in the prompt to the BLACK areas of the original image. The white areas of the mask indicate parts of the image that should remain unchanged. You must only return the edited image. Do not engage in conversation, ask for clarification, or respond with text. Apply the edit and output the resulting image.''"

text \<open>
  Lines 82 to 106 of the edit handler: the check of the body, then the argument of
  \<^verbatim>\<open>ai.models.generateContent\<close>. \<open>Inl\<close> is the response sent without calling the model.
\<close>

definition edit_request :: "json_object \<Rightarrow> http_response + generateContent_params" where
  "edit_request body =
     (case (map_of body ''prompt'', map_of body ''imageBase64Data'', map_of body ''mimeType'') of
        (Some p, Some imageData, Some mime) \<Rightarrow>
          if p = [] \<or> imageData = [] \<or> mime = []
          then Inl (res_status_json 400 [(''error'', ''Prompt, image data, and mimeType are required.'')])
          else Inr \<lparr>model = ''gemini-2.5-flash-image'',
                    parts = [InlineData imageData mime] @
                      (case map_of body ''maskBase64Data'' of
                         Some maskData \<Rightarrow>
                           if maskData \<noteq> []
                           then [InlineData maskData ''image/png'', TextPart (mask_instruction p)]
                           else [TextPart p]
                       | None \<Rightarrow> [TextPart p]),
                    systemInstruction = edit_systemInstruction,
                    responseModalities = [IMAGE, TEXT]\<rparr>
      | _ \<Rightarrow> Inl (res_status_json 400 [(''error'', ''Prompt, image data, and mimeType are required.'')]))"

text \<open>Lines 109 to 121: what the handler makes of the model's answer.\<close>

definition find_imagePart :: "generateContent_response \<Rightarrow> string option" where
  "find_imagePart response =
     (case candidate_parts response of
        None \<Rightarrow> None
      | Some ps \<Rightarrow>
          (case List.find (\<lambda>part. truthy (inlineData_data part)) ps of
             None \<Rightarrow> None
           | Some imagePart \<Rightarrow> inlineData_data imagePart))"

definition edit_interpret :: "generateContent_response \<Rightarrow> http_response" where
  "edit_interpret response =
     (case find_imagePart response of
        Some imageData \<Rightarrow> res_status_json 200 [(''imageBase64'', imageData)]
      | None \<Rightarrow>
          (case response_text response of
             Some textResponse \<Rightarrow>
               if textResponse \<noteq> []
               then handleApiErrorResponse (Error (''Image generation failed: '' @ textResponse))
               else handleApiErrorResponse (Error ''No image data was received from the API.'')
           | None \<Rightarrow> handleApiErrorResponse (Error ''No image data was received from the API.'')))"

definition edit_route ::
  "(generateContent_params \<Rightarrow> js_error + generateContent_response) \<Rightarrow> json_object \<Rightarrow> http_response" where
  "edit_route ai body =
     (case edit_request body of
        Inl res \<Rightarrow> res
      | Inr params \<Rightarrow>
          (case ai params of
             Inl err \<Rightarrow> handleApiErrorResponse err
           | Inr response \<Rightarrow> edit_interpret response))"

text \<open>
  The two POST route handlers of the server; \<open>None\<close> when neither matches the path.
  This is the server from the handlers on: a request that the body parser in front of
  them refuses (a body over 20 MB, malformed JSON) never reaches a handler and is answered
  by the framework with an HTML page, which the client reads as a body that is not JSON.
\<close>

record upstream =
  generateImages :: "generateImages_params \<Rightarrow> js_error + generateImages_response"
  generateContent :: "generateContent_params \<Rightarrow> js_error + generateContent_response"

definition server_post :: "upstream \<Rightarrow> http_request \<Rightarrow> http_response option" where
  "server_post ai req =
     (if endpoint req = ''/api/generate''
      then Some (generate_route (generateImages ai) (request_body req))
      else if endpoint req = ''/api/edit''
      then Some (edit_route (generateContent ai) (request_body req))
      else None)"


section \<open>The transport layer (services/geminiService.ts)\<close>

text \<open>
  \<^verbatim>\<open>JSON.stringify\<close> of an object whose properties are strings or \<^verbatim>\<open>undefined\<close>: a
  property whose value is \<^verbatim>\<open>undefined\<close> is left out.
\<close>

fun JSON_stringify :: "(string \<times> string option) list \<Rightarrow> json_object" where
  "JSON_stringify [] = []"
| "JSON_stringify ((k, None) # kvs) = JSON_stringify kvs"
| "JSON_stringify ((k, Some v) # kvs) = (k, v) # JSON_stringify kvs"

definition response_ok :: "http_response \<Rightarrow> bool" where
  "response_ok response = (200 \<le> status response \<and> status response \<le> 299)"

text \<open>
  The network is a function from the request to what \<^verbatim>\<open>fetch\<close> settles to. Every function
  that may call it returns, beside its result (\<open>Inl\<close> for a thrown value), the list of the
  requests it has dispatched.
\<close>

type_synonym network = "http_request \<Rightarrow> js_error + http_response"

definition fetchApi ::
  "network \<Rightarrow> string \<Rightarrow> (string \<times> string option) list
     \<Rightarrow> (js_error + json_object) \<times> http_request list" where
  "fetchApi net ep body =
     (let req = \<lparr>endpoint = ep, http_method = ''POST'', content_type = ''application/json'',
                  request_body = JSON_stringify body\<rparr>
      in (case net req of
            Inl e \<Rightarrow> Inl e
          | Inr response \<Rightarrow>
              if \<not> response_ok response
              then (let errorData =
                          (case json response of
                             Inl _ \<Rightarrow> [(''error'', ''An unknown error occurred.'')]
                           | Inr d \<Rightarrow> d)
                    in Inl (Error
                         (case map_of errorData ''error'' of
                            Some e \<Rightarrow>
                              if e \<noteq> [] then e
                              else ''Request failed with status '' @ string_of_nat (status response)
                          | None \<Rightarrow>
                              ''Request failed with status '' @ string_of_nat (status response))))
              else json response,
          [req]))"

definition imageBase64_of ::
  "(js_error + json_object) \<times> http_request list \<Rightarrow> (js_error + string) \<times> http_request list" where
  "imageBase64_of r =
     (case r of
        (Inl e, reqs) \<Rightarrow> (Inl e, reqs)
      | (Inr d, reqs) \<Rightarrow>
          (case map_of d ''imageBase64'' of
             Some img \<Rightarrow>
               if img \<noteq> [] then (Inr img, reqs)
               else (Inl (Error ''Invalid response from server: missing imageBase64 data.''), reqs)
           | None \<Rightarrow>
               (Inl (Error ''Invalid response from server: missing imageBase64 data.''), reqs)))"

definition generateImage ::
  "network \<Rightarrow> string \<Rightarrow> string \<Rightarrow> (js_error + string) \<times> http_request list" where
  "generateImage net p ar =
     imageBase64_of (fetchApi net ''/api/generate'' [(''prompt'', Some p), (''aspectRatio'', Some ar)])"

text \<open>
  \<open>imageData\<close> is optional too: the caller passes \<^verbatim>\<open>dataUrl.split(',')[1]\<close>, which is
  \<^verbatim>\<open>undefined\<close> for a URL without a comma.
\<close>

definition editImage ::
  "network \<Rightarrow> string \<Rightarrow> string option \<Rightarrow> string \<Rightarrow> string option
     \<Rightarrow> (js_error + string) \<times> http_request list" where
  "editImage net p imageData mime maskData =
     imageBase64_of
       (fetchApi net ''/api/edit''
          [(''prompt'', Some p), (''imageBase64Data'', imageData), (''mimeType'', Some mime),
           (''maskBase64Data'', maskData)])"


section \<open>JavaScript numbers\<close>

text \<open>
  A JavaScript number is an IEEE 754 double: a finite value, an infinity or NaN. The two
  zeros are one value here, which stands for the positive zero (the sign of a zero shows
  only in a division by it).
\<close>

datatype js_number = Finite real | PosInfinity | NegInfinity | NaN

text \<open>The integer nearest to \<open>q\<close>, the even one of the two when \<open>q\<close> lies half way.\<close>

definition round_half_even :: "real \<Rightarrow> int" where
  "round_half_even q =
     (let f = \<lfloor>q\<rfloor>; d = q - of_int f
      in if d < 1 / 2 then f else if 1 / 2 < d then f + 1 else if even f then f else f + 1)"

text \<open>
  The double nearest to the real \<open>x\<close> (round to nearest, ties to even): 53 significant
  bits above the exponent \<open>-1022\<close>, multiples of \<open>2 powr -1074\<close> below it, and an
  infinity when the rounded value reaches \<open>2 ^ 1024\<close>.
\<close>

definition round_double :: "real \<Rightarrow> js_number" where
  "round_double x =
     (if x = 0 then Finite 0
      else (let e = max \<lfloor>log 2 \<bar>x\<bar>\<rfloor> (- 1022);
                ulp = 2 powr (of_int e - 52);
                y = of_int (round_half_even (x / ulp)) * ulp
            in if 2 ^ 1024 \<le> \<bar>y\<bar> then (if 0 < x then PosInfinity else NegInfinity)
               else Finite y))"

text \<open>The operators \<^verbatim>\<open>-\<close>, \<^verbatim>\<open>*\<close> and \<^verbatim>\<open>/\<close> on numbers.\<close>

fun num_sub :: "js_number \<Rightarrow> js_number \<Rightarrow> js_number" where
  "num_sub (Finite x) (Finite y) = round_double (x - y)"
| "num_sub NaN b = NaN"
| "num_sub a NaN = NaN"
| "num_sub PosInfinity PosInfinity = NaN"
| "num_sub NegInfinity NegInfinity = NaN"
| "num_sub PosInfinity b = PosInfinity"
| "num_sub NegInfinity b = NegInfinity"
| "num_sub (Finite x) PosInfinity = NegInfinity"
| "num_sub (Finite x) NegInfinity = PosInfinity"

fun num_mul :: "js_number \<Rightarrow> js_number \<Rightarrow> js_number" where
  "num_mul (Finite x) (Finite y) = round_double (x * y)"
| "num_mul NaN b = NaN"
| "num_mul a NaN = NaN"
| "num_mul PosInfinity (Finite y) =
     (if y = 0 then NaN else if 0 < y then PosInfinity else NegInfinity)"
| "num_mul NegInfinity (Finite y) =
     (if y = 0 then NaN else if 0 < y then NegInfinity else PosInfinity)"
| "num_mul (Finite x) PosInfinity =
     (if x = 0 then NaN else if 0 < x then PosInfinity else NegInfinity)"
| "num_mul (Finite x) NegInfinity =
     (if x = 0 then NaN else if 0 < x then NegInfinity else PosInfinity)"
| "num_mul PosInfinity PosInfinity = PosInfinity"
| "num_mul PosInfinity NegInfinity = NegInfinity"
| "num_mul NegInfinity PosInfinity = NegInfinity"
| "num_mul NegInfinity NegInfinity = PosInfinity"

fun num_div :: "js_number \<Rightarrow> js_number \<Rightarrow> js_number" where
  "num_div (Finite x) (Finite y) =
     (if y = 0 then (if x = 0 then NaN else if 0 < x then PosInfinity else NegInfinity)
      else round_double (x / y))"
| "num_div NaN b = NaN"
| "num_div a NaN = NaN"
| "num_div (Finite x) PosInfinity = Finite 0"
| "num_div (Finite x) NegInfinity = Finite 0"
| "num_div PosInfinity (Finite y) = (if 0 \<le> y then PosInfinity else NegInfinity)"
| "num_div NegInfinity (Finite y) = (if 0 \<le> y then NegInfinity else PosInfinity)"
| "num_div PosInfinity b = NaN"
| "num_div NegInfinity b = NaN"


section \<open>The mask canvas\<close>

text \<open>
  A canvas bitmap: \<open>width * height\<close> pixels in row order, each with four 8-bit channels,
  as \<^verbatim>\<open>getImageData\<close> returns them.
\<close>

record rgba =
  red :: "8 word"
  green :: "8 word"
  blue :: "8 word"
  alpha :: "8 word"

record canvas =
  width :: nat
  height :: nat
  pixels :: "rgba list"

definition transparent :: rgba where
  "transparent = \<lparr>red = 0, green = 0, blue = 0, alpha = 0\<rparr>"

definition white :: rgba where
  "white = \<lparr>red = 255, green = 255, blue = 255, alpha = 255\<rparr>"

text \<open>The stroke and fill style \<^verbatim>\<open>rgba(0, 0, 0, 1)\<close>, at a coverage \<open>a\<close> of the pixel.\<close>

definition black :: "8 word \<Rightarrow> rgba" where
  "black a = \<lparr>red = 0, green = 0, blue = 0, alpha = a\<rparr>"

text \<open>
  The element of the \<^verbatim>\<open>Uint32Array\<close> laid over the bytes of one pixel (red is the lowest
  byte on a little-endian machine).
\<close>

definition uint32 :: "rgba \<Rightarrow> 32 word" where
  "uint32 p =
     word_of_nat (unat (red p) + 256 * unat (green p) + 65536 * unat (blue p)
                  + 16777216 * unat (alpha p))"

text \<open>A canvas whose width and height have just been set: transparent black everywhere.\<close>

definition createCanvas :: "nat \<Rightarrow> nat \<Rightarrow> canvas" where
  "createCanvas w h = \<lparr>width = w, height = h, pixels = replicate (w * h) transparent\<rparr>"

text \<open>\<^verbatim>\<open>ctx.clearRect(0, 0, canvas.width, canvas.height)\<close>\<close>

definition clearRect :: "canvas \<Rightarrow> canvas" where
  "clearRect c = c\<lparr>pixels := replicate (width c * height c) transparent\<rparr>"

text \<open>
  The default compositing operator of the 2D context, \<^verbatim>\<open>source-over\<close>, on 8-bit
  channels: \<open>\<alpha>o = \<alpha>s + \<alpha>b (1 - \<alpha>s)\<close> and
  \<open>Co = (Cs \<alpha>s + Cb \<alpha>b (1 - \<alpha>s)) / \<alpha>o\<close>, computed exactly and rounded to the nearest
  integer. (For black over black and for black over opaque white, the cases of the mask,
  the exact values are integers and no rounding takes place.)
\<close>

definition round_div :: "nat \<Rightarrow> nat \<Rightarrow> nat" where
  "round_div n d = (2 * n + d) div (2 * d)"

definition source_over :: "rgba \<Rightarrow> rgba \<Rightarrow> rgba" where
  "source_over s d =
     (let as = unat (alpha s); ab = unat (alpha d); n = 255 * as + ab * (255 - as);
          mix = (\<lambda>cs cb. word_of_nat (round_div (255 * unat cs * as + unat cb * ab * (255 - as)) n))
      in if n = 0 then transparent
         else \<lparr>red = mix (red s) (red d), green = mix (green s) (green d),
               blue = mix (blue s) (blue d), alpha = word_of_nat (round_div n 255)\<rparr>)"

text \<open>\<^verbatim>\<open>ctx.fillRect(0, 0, canvas.width, canvas.height)\<close> with a fill style \<open>color\<close>.\<close>

definition fillRect :: "rgba \<Rightarrow> canvas \<Rightarrow> canvas" where
  "fillRect color c = c\<lparr>pixels := map (source_over color) (pixels c)\<rparr>"

text \<open>
  \<^verbatim>\<open>ctx.drawImage(src, 0, 0)\<close> on the canvas \<open>dst\<close>: the pixel at column \<open>x\<close> and row \<open>y\<close>
  of \<open>src\<close> is composited over the same pixel of \<open>dst\<close>; what lies outside \<open>dst\<close> is
  clipped.
\<close>

definition drawImage :: "canvas \<Rightarrow> canvas \<Rightarrow> canvas" where
  "drawImage src dst =
     dst\<lparr>pixels :=
       map (\<lambda>i. let x = i mod width dst; y = i div width dst
                in if x < width src \<and> y < height src
                   then source_over (pixels src ! (y * width src + x)) (pixels dst ! i)
                   else pixels dst ! i)
           [0 ..< length (pixels dst)]\<rparr>"

text \<open>
  What the browser supplies: the PNG data URL of a canvas, the message of the
  \<^verbatim>\<open>IndexSizeError\<close> that \<^verbatim>\<open>getImageData\<close> throws for an empty rectangle, the
  rasteriser's coverage of a round-capped line (canvas width and height, line width, both end
  points) and of a disc (canvas width and height, centre, radius), and the opacity that it
  stores when black at a coverage is composited over a pixel of a given opacity (its
  rounding of \<open>\<alpha>s + \<alpha>b (1 - \<alpha>s)\<close>, which differs between implementations).
\<close>

record browser =
  toDataURL_png :: "canvas \<Rightarrow> string"
  indexSizeError_message :: string
  stroke_coverage :: "nat \<Rightarrow> nat \<Rightarrow> nat \<Rightarrow> js_number \<times> js_number \<Rightarrow> js_number \<times> js_number \<Rightarrow> nat \<Rightarrow> 8 word"
  arc_coverage :: "nat \<Rightarrow> nat \<Rightarrow> js_number \<times> js_number \<Rightarrow> nat \<Rightarrow> nat \<Rightarrow> 8 word"
  blend_alpha :: "8 word \<Rightarrow> 8 word \<Rightarrow> 8 word"

text \<open>
  A path filled or stroked in opaque black: the rasteriser gives each pixel (by its index)
  a coverage, and black at that coverage is composited over the pixel; the opacity of the
  result is the browser's.
\<close>

definition paint_black :: "browser \<Rightarrow> (nat \<Rightarrow> 8 word) \<Rightarrow> canvas \<Rightarrow> canvas" where
  "paint_black br cov c =
     c\<lparr>pixels :=
       map (\<lambda>i. (source_over (black (cov i)) (pixels c ! i))
                   \<lparr>alpha := blend_alpha br (cov i) (alpha (pixels c ! i))\<rparr>)
           [0 ..< length (pixels c)]\<rparr>"

text \<open>
  Lines 217 to 229 of \<^verbatim>\<open>getMaskAsBase64\<close>: a temporary canvas of the same size, filled
  white, with the drawing canvas drawn on top.
\<close>

definition mask_composite :: "canvas \<Rightarrow> canvas" where
  "mask_composite c = drawImage c (fillRect white (createCanvas (width c) (height c)))"

text \<open>
  \<open>canvasRef\<close> is \<^verbatim>\<open>drawingCanvasRef.current\<close>. \<open>Inr None\<close> is the result \<^verbatim>\<open>null\<close> (and
  \<^verbatim>\<open>undefined\<close>, which the caller does not tell apart). A 2D context is always obtained
  on these canvases, which are given no other kind of context.
\<close>

definition getMaskAsBase64 :: "browser \<Rightarrow> canvas option \<Rightarrow> js_error + string option" where
  "getMaskAsBase64 br canvasRef =
     (case canvasRef of
        None \<Rightarrow> Inr None
      | Some c \<Rightarrow>
          if width c = 0 \<or> height c = 0 then Inl (Error (indexSizeError_message br))
          else (let pixelBuffer = map uint32 (pixels c);
                    isCanvasEmpty = \<not> list_ex (\<lambda>color. color \<noteq> 0) pixelBuffer
                in if isCanvasEmpty then Inr None
                   else Inr (index1 (split_on (CHR '','') (toDataURL_png br (mask_composite c))))))"

text \<open>
  The rectangle of \<^verbatim>\<open>getBoundingClientRect()\<close> and the position of the pointer (of the
  first touch for a touch event), in CSS pixels. The width and the height of a canvas are
  integers below \<open>2 ^ 32\<close>, which are doubles.
\<close>

record dom_rect =
  rect_left :: js_number
  rect_top :: js_number
  rect_width :: js_number
  rect_height :: js_number

record pointer_event =
  clientX :: js_number
  clientY :: js_number

definition getCanvasCoords ::
  "canvas option \<Rightarrow> dom_rect \<Rightarrow> pointer_event \<Rightarrow> (js_number \<times> js_number) option" where
  "getCanvasCoords canvasRef rect e =
     (case canvasRef of
        None \<Rightarrow> None
      | Some c \<Rightarrow>
          (let scaleX = num_div (Finite (real (width c))) (rect_width rect);
               scaleY = num_div (Finite (real (height c))) (rect_height rect)
           in Some (num_mul (num_sub (clientX e) (rect_left rect)) scaleX,
                    num_mul (num_sub (clientY e) (rect_top rect)) scaleY)))"

text \<open>
  The fraction of the displayed extent at which the pointer lies along one axis, in exact
  arithmetic, for finite numbers whose magnitudes lie between \<open>2 ^ 400\<close> and its inverse
  (a pointer exactly at the origin of the rectangle is at the fraction 0).
\<close>

definition in_range :: "real \<Rightarrow> bool" where
  "in_range x = (1 / 2 ^ 400 \<le> \<bar>x\<bar> \<and> \<bar>x\<bar> \<le> 2 ^ 400)"

definition pointer_fraction :: "js_number \<Rightarrow> js_number \<Rightarrow> js_number \<Rightarrow> real option" where
  "pointer_fraction origin extent client =
     (case (origin, extent, client) of
        (Finite l, Finite w, Finite c) \<Rightarrow>
          if 0 < w \<and> in_range w \<and> (c = l \<or> in_range (c - l)) then Some ((c - l) / w) else None
      | _ \<Rightarrow> None)"


section \<open>The application state and its handlers\<close>

datatype edit_mode = Generate | Edit

record uploaded_image =
  dataUrl :: string
  mimeType :: string

text \<open>
  The state hooks and the refs of the component. \<open>drawingCanvas\<close> is
  \<^verbatim>\<open>drawingCanvasRef.current\<close>, \<open>None\<close> while the canvas is not mounted.
\<close>

record app =
  mode :: edit_mode
  prompt :: string
  uploadedImage :: "uploaded_image option"
  aspectRatio :: string
  generatedImage :: "string option"
  comparisonImage :: "string option"
  history :: "string list"
  isLoading :: bool
  error :: "string option"
  brushSize :: nat
  drawingCanvas :: "canvas option"
  isDrawing :: bool
  lastPos :: "(js_number \<times> js_number) option"

text \<open>The initial values of the hooks and the refs.\<close>

definition initial_app :: app where
  "initial_app =
     \<lparr>mode = Generate, prompt = [], uploadedImage = None, aspectRatio = ''1:1'',
      generatedImage = None, comparisonImage = None, history = [], isLoading = False,
      error = None, brushSize = 20, drawingCanvas = None, isDrawing = False, lastPos = None\<rparr>"

definition clearState :: "app \<Rightarrow> app" where
  "clearState s = s\<lparr>error := None, generatedImage := None, comparisonImage := None\<rparr>"

text \<open>
  \<^verbatim>\<open>handleApiResponse\<close> reads \<^verbatim>\<open>mode\<close> and \<^verbatim>\<open>uploadedImage\<close> from the render in which
  it was created, and the memoised handlers call the one of the render in which their
  dependencies last changed: these two values are the arguments \<open>closure_mode\<close> and
  \<open>closure_image\<close>, which need not be those of the current state. The history is
  updated from its current value.
\<close>

definition handleApiResponse :: "edit_mode \<Rightarrow> uploaded_image option \<Rightarrow> string \<Rightarrow> app \<Rightarrow> app" where
  "handleApiResponse closure_mode closure_image imageBase64 s =
     (let imageUrl = ''data:image/jpeg;base64,'' @ imageBase64;
          s1 = s\<lparr>generatedImage := Some imageUrl\<rparr>;
          s2 = (case closure_image of
                  Some up \<Rightarrow>
                    if closure_mode = Edit then s1\<lparr>comparisonImage := Some (dataUrl up)\<rparr> else s1
                | None \<Rightarrow> s1)
      in s2\<lparr>history := take 6 (imageUrl # history s)\<rparr>)"

definition handleApiError :: "js_error \<Rightarrow> app \<Rightarrow> app" where
  "handleApiError err s =
     (let errorMessage = (case err of Error m \<Rightarrow> m | NonError \<Rightarrow> ''An unknown error occurred.'')
      in s\<lparr>error := Some (''Failed to generate image: '' @ errorMessage)\<rparr>)"

text \<open>
  The callback of \<^verbatim>\<open>img.onload\<close> in the effect that follows a change of the uploaded
  image, for an image of natural size \<open>w\<close> by \<open>h\<close>, run while the canvas that the effect
  found is still the mounted one: setting the size of a canvas clears it.
\<close>

definition image_onload :: "nat \<Rightarrow> nat \<Rightarrow> app \<Rightarrow> app" where
  "image_onload w h s =
     (case drawingCanvas s of
        None \<Rightarrow> s
      | Some c \<Rightarrow> s\<lparr>drawingCanvas := Some (clearRect (createCanvas w h))\<rparr>)"

definition startDrawing :: "dom_rect \<Rightarrow> pointer_event \<Rightarrow> app \<Rightarrow> app" where
  "startDrawing rect e s =
     (case getCanvasCoords (drawingCanvas s) rect e of
        None \<Rightarrow> s
      | Some coords \<Rightarrow> s\<lparr>isDrawing := True, lastPos := Some coords\<rparr>)"

definition draw :: "browser \<Rightarrow> dom_rect \<Rightarrow> pointer_event \<Rightarrow> app \<Rightarrow> app" where
  "draw br rect e s =
     (if \<not> isDrawing s then s
      else (case (drawingCanvas s, getCanvasCoords (drawingCanvas s) rect e, lastPos s) of
              (Some c, Some coords, Some lp) \<Rightarrow>
                (let c1 = paint_black br
                            (stroke_coverage br (width c) (height c) (brushSize s * 2) lp coords) c;
                     c2 = paint_black br
                            (arc_coverage br (width c) (height c) coords (brushSize s)) c1
                 in s\<lparr>drawingCanvas := Some c2, lastPos := Some coords\<rparr>)
            | _ \<Rightarrow> s))"

definition stopDrawing :: "app \<Rightarrow> app" where
  "stopDrawing s = s\<lparr>isDrawing := False, lastPos := None\<rparr>"

definition clearMask :: "app \<Rightarrow> app" where
  "clearMask s =
     (case drawingCanvas s of
        None \<Rightarrow> s
      | Some c \<Rightarrow> s\<lparr>drawingCanvas := Some (clearRect c)\<rparr>)"

text \<open>
  What a render does to \<^verbatim>\<open>drawingCanvasRef.current\<close>: the canvas is in the tree exactly
  in edit mode with an uploaded image. A canvas that enters the tree is a new element, 300
  by 150 and transparent; one that stays keeps its bitmap. (The effect that sizes the
  canvas runs only when the uploaded image changes.)
\<close>

definition render :: "app \<Rightarrow> app" where
  "render s =
     (if mode s = Edit \<and> uploadedImage s \<noteq> None
      then (case drawingCanvas s of
              None \<Rightarrow> s\<lparr>drawingCanvas := Some (createCanvas 300 150)\<rparr>
            | Some c \<Rightarrow> s)
      else s\<lparr>drawingCanvas := None\<rparr>)"

text \<open>
  What the user does between the load of an image and an export: pointer events on the
  drawing canvas, the brush slider, the clear button, the two mode tabs and the remove
  button, each followed by its render.
\<close>

datatype canvas_event =
  MouseDown dom_rect pointer_event
| MouseMove dom_rect pointer_event
| MouseUp
| BrushSize nat
| ClearMask
| SetMode edit_mode
| RemoveImage

fun canvas_step :: "browser \<Rightarrow> app \<Rightarrow> canvas_event \<Rightarrow> app" where
  "canvas_step br s (MouseDown rect e) = startDrawing rect e s"
| "canvas_step br s (MouseMove rect e) = draw br rect e s"
| "canvas_step br s MouseUp = stopDrawing s"
| "canvas_step br s (BrushSize n) = s\<lparr>brushSize := n\<rparr>"
| "canvas_step br s ClearMask = clearMask s"
| "canvas_step br s (SetMode m) = render (s\<lparr>mode := m\<rparr>)"
| "canvas_step br s RemoveImage = render (s\<lparr>uploadedImage := None\<rparr>)"

text \<open>The events that can take the canvas out of the tree.\<close>

fun unmounts :: "canvas_event \<Rightarrow> bool" where
  "unmounts (SetMode m) = True"
| "unmounts RemoveImage = True"
| "unmounts e = False"

definition canvas_events :: "browser \<Rightarrow> canvas_event list \<Rightarrow> app \<Rightarrow> app" where
  "canvas_events br evs s = foldl (canvas_step br) s evs"


text \<open>
  \<^verbatim>\<open>handleGenerate\<close> is memoised on the prompt and the aspect ratio, \<^verbatim>\<open>handleEdit\<close> on
  the prompt and the uploaded image: these they read from the current state, and the
  \<^verbatim>\<open>handleApiResponse\<close> they call is the one of the render that memoised them.
\<close>

definition handleGenerate ::
  "edit_mode \<Rightarrow> uploaded_image option \<Rightarrow> network \<Rightarrow> app \<Rightarrow> app \<times> http_request list" where
  "handleGenerate closure_mode closure_image net s =
     (if trim (prompt s) = [] then (s\<lparr>error := Some ''Please enter a prompt.''\<rparr>, [])
      else (let s1 = clearState (s\<lparr>isLoading := True\<rparr>)
            in (case generateImage net (prompt s) (aspectRatio s) of
                  (Inr imageBase64, reqs) \<Rightarrow>
                    ((handleApiResponse closure_mode closure_image imageBase64 s1)
                       \<lparr>isLoading := False\<rparr>, reqs)
                | (Inl err, reqs) \<Rightarrow> ((handleApiError err s1)\<lparr>isLoading := False\<rparr>, reqs))))"

definition handleEdit ::
  "edit_mode \<Rightarrow> browser \<Rightarrow> network \<Rightarrow> app \<Rightarrow> app \<times> http_request list" where
  "handleEdit closure_mode br net s =
     (if trim (prompt s) = [] then (s\<lparr>error := Some ''Please enter an edit instruction.''\<rparr>, [])
      else (case uploadedImage s of
              None \<Rightarrow> (s\<lparr>error := Some ''Please upload an image to edit.''\<rparr>, [])
            | Some up \<Rightarrow>
                (let s1 = clearState (s\<lparr>isLoading := True\<rparr>);
                     base64Data = index1 (split_on (CHR '','') (dataUrl up))
                 in (case getMaskAsBase64 br (drawingCanvas s) of
                       Inl err \<Rightarrow> ((handleApiError err s1)\<lparr>isLoading := False\<rparr>, [])
                     | Inr maskBase64Data \<Rightarrow>
                         (case editImage net (prompt s) base64Data (mimeType up) maskBase64Data of
                            (Inr imageBase64, reqs) \<Rightarrow>
                              ((handleApiResponse closure_mode (uploadedImage s) imageBase64 s1)
                                 \<lparr>isLoading := False\<rparr>, reqs)
                          | (Inl err, reqs) \<Rightarrow>
                              ((handleApiError err s1)\<lparr>isLoading := False\<rparr>, reqs))))))"

text \<open>
  The regular expression \<^verbatim>\<open>/data:(image\/\w+);base64,/\<close> of \<^verbatim>\<open>handleReEdit\<close>.
  \<open>mime_match_here\<close> matches it at the start of the string and returns the group: after
  \<^verbatim>\<open>data:image/\<close> comes the longest run of word characters (a shorter run is followed
  by a word character, never by the semicolon), which must not be empty, then
  \<^verbatim>\<open>;base64,\<close>. \<open>mime_match\<close> is \<^verbatim>\<open>s.match\<close>: the leftmost match.
\<close>

definition is_word_char :: "char \<Rightarrow> bool" where
  "is_word_char c =
     (let n = (of_char c :: nat)
      in (48 \<le> n \<and> n \<le> 57) \<or> (65 \<le> n \<and> n \<le> 90) \<or> n = 95 \<or> (97 \<le> n \<and> n \<le> 122))"

definition mime_match_here :: "string \<Rightarrow> string option" where
  "mime_match_here s =
     (if startsWith s ''data:image/''
      then (let rest = drop 11 s; w = takeWhile is_word_char rest
            in if w \<noteq> [] \<and> startsWith (dropWhile is_word_char rest) '';base64,''
               then Some (''image/'' @ w) else None)
      else None)"

fun mime_match :: "string \<Rightarrow> string option" where
  "mime_match [] = mime_match_here []"
| "mime_match (c # cs) =
     (case mime_match_here (c # cs) of Some m \<Rightarrow> Some m | None \<Rightarrow> mime_match cs)"

definition handleReEdit :: "app \<Rightarrow> app" where
  "handleReEdit s =
     (case generatedImage s of
        None \<Rightarrow> s
      | Some g \<Rightarrow>
          (let mt = (case mime_match g of Some m \<Rightarrow> m | None \<Rightarrow> ''image/jpeg'')
           in s\<lparr>mode := Edit, uploadedImage := Some \<lparr>dataUrl = g, mimeType = mt\<rparr>,
                 prompt := [], generatedImage := None, comparisonImage := None, error := None\<rparr>))"

text \<open>A click on an entry of the history strip.\<close>

definition history_click :: "string \<Rightarrow> app \<Rightarrow> app" where
  "history_click imgSrc s = s\<lparr>generatedImage := Some imgSrc, comparisonImage := None\<rparr>"


section \<open>Facts about the string functions\<close>

lemma startsWith_prefix: "startsWith s p = prefix p s"
  by (induction s p rule: startsWith.induct) auto

lemma str_includes_sublist: "str_includes s sub = sublist sub s"
  by (induction s) (auto simp: startsWith_prefix sublist_Cons_right)

lemma str_includes_append_skip:
  "c \<notin> set pre \<Longrightarrow> str_includes (pre @ t) (c # cs) = str_includes t (c # cs)"
  by (induction pre) auto

lemma trim_blank: "\<forall>c \<in> set s. is_ws c \<Longrightarrow> trim s = []"
proof -
  assume "\<forall>c \<in> set s. is_ws c"
  then have d: "dropWhile is_ws s = []" by simp
  show ?thesis unfolding trim_def d by simp
qed

lemma trim_blank_iff: "(trim s = []) = (\<forall>c \<in> set s. is_ws c)"
proof
  assume t: "trim s = []"
  then have "dropWhile is_ws (rev (dropWhile is_ws s)) = []"
    by (simp add: trim_def)
  then have "\<forall>c \<in> set (dropWhile is_ws s). is_ws c"
    by (simp only: dropWhile_eq_Nil_conv set_rev)
  then have "dropWhile is_ws s = []"
    using hd_dropWhile [of is_ws s] by (cases "dropWhile is_ws s") auto
  then show "\<forall>c \<in> set s. is_ws c"
    by simp
qed (rule trim_blank)


section \<open>The backend: payloads and responses\<close>

lemma failed_message_includes:
  "str_includes (''Image generation failed: '' @ t) ''API key not valid'' = str_includes t ''API key not valid''"
  "str_includes (''Image generation failed: '' @ t) ''429'' = str_includes t ''429''"
  by (rule str_includes_append_skip, simp)+

lemma failed_message_startsWith:
  "startsWith (''Image generation failed: '' @ t) ''Image generation failed:''"
  by simp

lemma handleApiErrorResponse_failed:
  "\<not> str_includes t ''API key not valid'' \<Longrightarrow> \<not> str_includes t ''429'' \<Longrightarrow>
   handleApiErrorResponse (Error (''Image generation failed: '' @ t)) =
     \<lparr>status = 400, json = Inr [(''error'', ''Image generation failed: '' @ t)]\<rparr>"
  unfolding handleApiErrorResponse_def
  by (simp only: failed_message_includes failed_message_startsWith js_error.case if_False if_True
        res_status_json_def)

lemma handleApiErrorResponse_no_image:
  "handleApiErrorResponse (Error ''No image data was received from the API.'') =
     \<lparr>status = 500, json = Inr [(''error'', ''Failed to process request due to an API error.'')]\<rparr>"
  by (simp add: handleApiErrorResponse_def res_status_json_def)

lemma find_Some_holds: "List.find P xs = Some x \<Longrightarrow> P x \<and> x \<in> set xs"
  by (induction xs) (auto split: if_splits)

lemma find_imagePart_None:
  "(find_imagePart response = None) =
   (\<forall>ps. candidate_parts response = Some ps \<longrightarrow> (\<forall>part \<in> set ps. \<not> truthy (inlineData_data part)))"
proof (cases "candidate_parts response")
  case None
  then show ?thesis by (simp add: find_imagePart_def)
next
  case (Some ps)
  note ps = this
  show ?thesis
  proof (cases "List.find (\<lambda>part. truthy (inlineData_data part)) ps")
    case None
    then have "\<forall>part \<in> set ps. \<not> truthy (inlineData_data part)"
      by (simp add: find_None_iff)
    with None ps show ?thesis by (simp add: find_imagePart_def)
  next
    case (Some imagePart)
    then have "truthy (inlineData_data imagePart)" and "imagePart \<in> set ps"
      using find_Some_holds [of "\<lambda>part. truthy (inlineData_data part)" ps imagePart] by simp_all
    with Some ps show ?thesis
      by (auto simp: find_imagePart_def truthy_def split: option.splits)
  qed
qed

lemma edit_request_Inr_iff:
  "(edit_request body = Inr params) =
   (\<exists>p imageData mime.
      map_of body ''prompt'' = Some p \<and> p \<noteq> [] \<and>
      map_of body ''imageBase64Data'' = Some imageData \<and> imageData \<noteq> [] \<and>
      map_of body ''mimeType'' = Some mime \<and> mime \<noteq> [] \<and>
      params = \<lparr>model = ''gemini-2.5-flash-image'',
                parts = [InlineData imageData mime] @
                  (case map_of body ''maskBase64Data'' of
                     Some maskData \<Rightarrow>
                       if maskData \<noteq> []
                       then [InlineData maskData ''image/png'', TextPart (mask_instruction p)]
                       else [TextPart p]
                   | None \<Rightarrow> [TextPart p]),
                systemInstruction = edit_systemInstruction,
                responseModalities = [IMAGE, TEXT]\<rparr>)"
  unfolding edit_request_def
  by (cases "map_of body ''prompt''"; cases "map_of body ''imageBase64Data''"; cases "map_of body ''mimeType''")
     (auto simp del: map_of_eq_Some_iff)

lemma edit_route_dispatch:
  "edit_request body = Inr params \<Longrightarrow>
   edit_route ai body =
     (case ai params of Inl err \<Rightarrow> handleApiErrorResponse err | Inr response \<Rightarrow> edit_interpret response)"
  by (simp add: edit_route_def)

lemma handleApiErrorResponse_shape:
  "\<exists>code e. e \<noteq> [] \<and> handleApiErrorResponse err = res_status_json code [(''error'', e)]"
proof (cases err)
  case (Error message)
  show ?thesis
  proof (cases "str_includes message ''API key not valid''")
    case True
    with Error have "handleApiErrorResponse err = res_status_json 401 [(''error'', ''The provided API key is not valid.'')]"
      by (simp add: handleApiErrorResponse_def)
    moreover have "''The provided API key is not valid.'' \<noteq> []" by simp
    ultimately show ?thesis by (intro exI conjI)
  next
    case nokey: False
    show ?thesis
    proof (cases "str_includes message ''429''")
      case True
      with Error nokey have "handleApiErrorResponse err = res_status_json 429 [(''error'', ''API rate limit exceeded. Please try again later.'')]"
        by (simp add: handleApiErrorResponse_def)
      moreover have "''API rate limit exceeded. Please try again later.'' \<noteq> []" by simp
      ultimately show ?thesis by (intro exI conjI)
    next
      case norate: False
      show ?thesis
      proof (cases "startsWith message ''Image generation failed:''")
        case True
        with Error nokey norate have "handleApiErrorResponse err = res_status_json 400 [(''error'', message)]"
          by (simp add: handleApiErrorResponse_def)
        moreover from True have "message \<noteq> []" by auto
        ultimately show ?thesis by (intro exI conjI)
      next
        case False
        with Error nokey norate have "handleApiErrorResponse err = res_status_json 500 [(''error'', ''Failed to process request due to an API error.'')]"
          by (simp add: handleApiErrorResponse_def)
        moreover have "''Failed to process request due to an API error.'' \<noteq> []" by simp
        ultimately show ?thesis by (intro exI conjI)
      qed
    qed
  qed
next
  case NonError
  then have "handleApiErrorResponse err = res_status_json 500 [(''error'', ''Failed to process request due to an API error.'')]"
    by (simp add: handleApiErrorResponse_def)
  moreover have "''Failed to process request due to an API error.'' \<noteq> []" by simp
  ultimately show ?thesis by (intro exI conjI)
qed

lemma generate_request_Inl:
  "generate_request b = Inl res \<Longrightarrow>
   res = res_status_json 400 [(''error'', ''Prompt and aspect ratio are required.'')]"
  by (simp add: generate_request_def split: option.splits if_splits)

lemma edit_request_Inl:
  "edit_request b = Inl res \<Longrightarrow>
   res = res_status_json 400 [(''error'', ''Prompt, image data, and mimeType are required.'')]"
  by (simp add: edit_request_def split: option.splits if_splits)

lemma response_ok_200: "response_ok (res_status_json 200 obj)"
  by (simp add: response_ok_def res_status_json_def)

lemma error_response_json:
  "e \<noteq> [] \<Longrightarrow> \<exists>e'. e' \<noteq> [] \<and> json (res_status_json code [(''error'', e)]) = Inr [(''error'', e')]"
  by (simp add: res_status_json_def)

lemma handleApiErrorResponse_json:
  "\<exists>e. e \<noteq> [] \<and> json (handleApiErrorResponse err) = Inr [(''error'', e)]"
proof -
  obtain code e where "e \<noteq> []" and "handleApiErrorResponse err = res_status_json code [(''error'', e)]"
    using handleApiErrorResponse_shape by blast
  then show ?thesis using error_response_json by simp
qed

lemma generate_route_error:
  assumes "\<not> response_ok (generate_route gi b)"
  shows "\<exists>e. e \<noteq> [] \<and> json (generate_route gi b) = Inr [(''error'', e)]"
proof (cases "generate_request b")
  case (Inl res)
  then have "generate_route gi b = res_status_json 400 [(''error'', ''Prompt and aspect ratio are required.'')]"
    using generate_request_Inl [OF Inl] by (simp add: generate_route_def)
  moreover have "''Prompt and aspect ratio are required.'' \<noteq> []" by simp
  ultimately show ?thesis using error_response_json by simp
next
  case (Inr params)
  note params = this
  show ?thesis
  proof (cases "gi params")
    case (Inl err)
    with params have "generate_route gi b = handleApiErrorResponse err"
      by (simp add: generate_route_def)
    then show ?thesis using handleApiErrorResponse_json by simp
  next
    case (Inr response)
    note response = this
    show ?thesis
    proof (cases "imageBytes response")
      case None
      with params response
      have "generate_route gi b = handleApiErrorResponse (Error ''No image data received from the API.'')"
        by (simp add: generate_route_def)
      then show ?thesis using handleApiErrorResponse_json by simp
    next
      case (Some bytes)
      show ?thesis
      proof (cases "bytes = []")
        case True
        with Some params response
        have "generate_route gi b = handleApiErrorResponse (Error ''No image data received from the API.'')"
          by (simp add: generate_route_def)
        then show ?thesis using handleApiErrorResponse_json by simp
      next
        case False
        with Some params response
        have "generate_route gi b = res_status_json 200 [(''imageBase64'', bytes)]"
          by (simp add: generate_route_def)
        with assms show ?thesis using response_ok_200 by simp
      qed
    qed
  qed
qed

lemma edit_interpret_error:
  assumes "\<not> response_ok (edit_interpret response)"
  shows "\<exists>e. e \<noteq> [] \<and> json (edit_interpret response) = Inr [(''error'', e)]"
proof (cases "find_imagePart response")
  case (Some imageData)
  then have "edit_interpret response = res_status_json 200 [(''imageBase64'', imageData)]"
    by (simp add: edit_interpret_def)
  with assms show ?thesis using response_ok_200 by simp
next
  case None
  then have "edit_interpret response =
      handleApiErrorResponse
        (case response_text response of
           Some textResponse \<Rightarrow>
             if textResponse \<noteq> [] then Error (''Image generation failed: '' @ textResponse)
             else Error ''No image data was received from the API.''
         | None \<Rightarrow> Error ''No image data was received from the API.'')"
    by (simp add: edit_interpret_def split: option.splits)
  then show ?thesis using handleApiErrorResponse_json by simp
qed

lemma edit_route_error:
  assumes "\<not> response_ok (edit_route gc b)"
  shows "\<exists>e. e \<noteq> [] \<and> json (edit_route gc b) = Inr [(''error'', e)]"
proof (cases "edit_request b")
  case (Inl res)
  then have "edit_route gc b = res_status_json 400 [(''error'', ''Prompt, image data, and mimeType are required.'')]"
    using edit_request_Inl [OF Inl] by (simp add: edit_route_def)
  moreover have "''Prompt, image data, and mimeType are required.'' \<noteq> []" by simp
  ultimately show ?thesis using error_response_json by simp
next
  case (Inr params)
  note params = this
  show ?thesis
  proof (cases "gc params")
    case (Inl err)
    with params have "edit_route gc b = handleApiErrorResponse err"
      by (simp add: edit_route_def)
    then show ?thesis using handleApiErrorResponse_json by simp
  next
    case (Inr response)
    with params have "edit_route gc b = edit_interpret response"
      by (simp add: edit_route_def)
    with assms show ?thesis using edit_interpret_error by simp
  qed
qed

lemma server_error_response:
  assumes "server_post ai rq = Some response" and "\<not> response_ok response"
  shows "\<exists>e. e \<noteq> [] \<and> json response = Inr [(''error'', e)]"
  using assms generate_route_error edit_route_error
  by (auto simp: server_post_def split: if_splits)

text \<open>
  C1: an edit request whose body has a non-empty \<^verbatim>\<open>maskBase64Data\<close> reaches the model
  exactly when prompt, image data and MIME type are non-empty, and then the payload has
  three parts in this order: the image with the MIME type of the request, the mask tagged
  \<^verbatim>\<open>image/png\<close>, and the instruction about the BLACK and the white areas with the prompt
  between double quotes. By \<open>edit_route_dispatch\<close> this payload is what the route passes on.
\<close>

theorem edit_with_mask_payload:
  assumes "map_of body ''maskBase64Data'' = Some maskData" and "maskData \<noteq> []"
  shows "(edit_request body = Inr params) =
         (\<exists>p imageData mime.
            map_of body ''prompt'' = Some p \<and> p \<noteq> [] \<and>
            map_of body ''imageBase64Data'' = Some imageData \<and> imageData \<noteq> [] \<and>
            map_of body ''mimeType'' = Some mime \<and> mime \<noteq> [] \<and>
            model params = ''gemini-2.5-flash-image'' \<and>
            systemInstruction params = edit_systemInstruction \<and>
            responseModalities params = [IMAGE, TEXT] \<and>
            parts params =
              [InlineData imageData mime,
               InlineData maskData ''image/png'',
               TextPart (''Using the provided black and white mask image, apply the following edit only to the BLACK areas of the original image, leaving the white areas unchanged: ''
                         @ [CHR 0x22] @ p @ [CHR 0x22])])"
  unfolding edit_request_Inr_iff using assms
  by (cases params) (auto simp: mask_instruction_def)

theorem edit_with_mask_payload_witness:
  "map_of [(''prompt'', ''add a hat''), (''imageBase64Data'', ''QUJD''), (''mimeType'', ''image/jpeg''),
           (''maskBase64Data'', ''TUFTSw'')] ''maskBase64Data'' = Some ''TUFTSw'' \<and>
   ''TUFTSw'' \<noteq> [] \<and>
   edit_request [(''prompt'', ''add a hat''), (''imageBase64Data'', ''QUJD''), (''mimeType'', ''image/jpeg''),
                 (''maskBase64Data'', ''TUFTSw'')] =
     Inr \<lparr>model = ''gemini-2.5-flash-image'',
          parts = [InlineData ''QUJD'' ''image/jpeg'', InlineData ''TUFTSw'' ''image/png'',
                   TextPart (''Using the provided black and white mask image, apply the following edit only to the BLACK areas of the original image, leaving the white areas unchanged: ''
                             @ [CHR 0x22] @ ''add a hat'' @ [CHR 0x22])],
          systemInstruction = edit_systemInstruction,
          responseModalities = [IMAGE, TEXT]\<rparr>"
  using edit_with_mask_payload
    [of "[(''prompt'', ''add a hat''), (''imageBase64Data'', ''QUJD''), (''mimeType'', ''image/jpeg''),
          (''maskBase64Data'', ''TUFTSw'')]" "''TUFTSw''"
        "\<lparr>model = ''gemini-2.5-flash-image'',
          parts = [InlineData ''QUJD'' ''image/jpeg'', InlineData ''TUFTSw'' ''image/png'',
                   TextPart (''Using the provided black and white mask image, apply the following edit only to the BLACK areas of the original image, leaving the white areas unchanged: ''
                             @ [CHR 0x22] @ ''add a hat'' @ [CHR 0x22])],
          systemInstruction = edit_systemInstruction,
          responseModalities = [IMAGE, TEXT]\<rparr>"]
  by simp

text \<open>
  C2, as stated, fails: with neither an image nor a text in the answer the status is 500
  but the message is the generic one, not one about image data; and a text reply that
  contains \<^verbatim>\<open>429\<close> is answered with status 429 and the rate-limit message.
\<close>

theorem edit_text_only_counterexample:
  "edit_interpret \<lparr>candidate_parts = Some [\<lparr>inlineData_data = None\<rparr>], response_text = None\<rparr> =
     \<lparr>status = 500, json = Inr [(''error'', ''Failed to process request due to an API error.'')]\<rparr> \<and>
   \<not> str_includes ''Failed to process request due to an API error.'' ''image data'' \<and>
   edit_interpret \<lparr>candidate_parts = Some [\<lparr>inlineData_data = None\<rparr>],
                   response_text = Some ''Sorry, I cannot edit this 4290x2160 image.''\<rparr> =
     \<lparr>status = 429, json = Inr [(''error'', ''API rate limit exceeded. Please try again later.'')]\<rparr>"
  by (simp add: edit_interpret_def find_imagePart_def truthy_def handleApiErrorResponse_def
        res_status_json_def)

text \<open>
  C2, amended: when the model's answer has no inline image data, a non-empty text reply
  containing neither \<^verbatim>\<open>API key not valid\<close> nor \<^verbatim>\<open>429\<close> is answered with status 400
  and the error \<^verbatim>\<open>Image generation failed: \<close> followed by the reply; an absent or
  empty reply is answered with status 500 and the generic error message.
\<close>

theorem edit_no_image_response:
  assumes "edit_request body = Inr params" and "ai params = Inr response"
    and "\<forall>ps. candidate_parts response = Some ps \<longrightarrow>
           (\<forall>part \<in> set ps. \<not> truthy (inlineData_data part))"
  shows "(response_text response = Some t \<and> t \<noteq> [] \<and>
          \<not> str_includes t ''API key not valid'' \<and> \<not> str_includes t ''429'' \<longrightarrow>
            edit_route ai body =
              \<lparr>status = 400, json = Inr [(''error'', ''Image generation failed: '' @ t)]\<rparr>) \<and>
         (\<not> truthy (response_text response) \<longrightarrow>
            edit_route ai body =
              \<lparr>status = 500,
               json = Inr [(''error'', ''Failed to process request due to an API error.'')]\<rparr>)"
proof -
  have none: "find_imagePart response = None"
    using assms(3) by (simp add: find_imagePart_None)
  have route: "edit_route ai body = edit_interpret response"
    using assms(1,2) by (simp add: edit_route_dispatch)
  show ?thesis
  proof (intro conjI impI)
    assume "response_text response = Some t \<and> t \<noteq> [] \<and>
            \<not> str_includes t ''API key not valid'' \<and> \<not> str_includes t ''429''"
    then show "edit_route ai body =
                 \<lparr>status = 400, json = Inr [(''error'', ''Image generation failed: '' @ t)]\<rparr>"
      unfolding route edit_interpret_def none
      by (simp del: append.simps add: handleApiErrorResponse_failed)
  next
    assume "\<not> truthy (response_text response)"
    then show "edit_route ai body =
                 \<lparr>status = 500,
                  json = Inr [(''error'', ''Failed to process request due to an API error.'')]\<rparr>"
      unfolding route edit_interpret_def none
      by (simp add: handleApiErrorResponse_no_image truthy_def split: option.splits)
  qed
qed

theorem edit_no_image_response_witness:
  "edit_route (\<lambda>params. Inr \<lparr>candidate_parts = Some [\<lparr>inlineData_data = None\<rparr>],
                              response_text = Some ''I can not do that.''\<rparr>)
     [(''prompt'', ''add a hat''), (''imageBase64Data'', ''QUJD''), (''mimeType'', ''image/png'')] =
     \<lparr>status = 400, json = Inr [(''error'', ''Image generation failed: I can not do that.'')]\<rparr> \<and>
   edit_route (\<lambda>params. Inr \<lparr>candidate_parts = None, response_text = None\<rparr>)
     [(''prompt'', ''add a hat''), (''imageBase64Data'', ''QUJD''), (''mimeType'', ''image/png'')] =
     \<lparr>status = 500, json = Inr [(''error'', ''Failed to process request due to an API error.'')]\<rparr>"
proof -
  let ?body = "[(''prompt'', ''add a hat''), (''imageBase64Data'', ''QUJD''), (''mimeType'', ''image/png'')]"
  let ?params = "\<lparr>model = ''gemini-2.5-flash-image'',
                   parts = [InlineData ''QUJD'' ''image/png'', TextPart ''add a hat''],
                   systemInstruction = edit_systemInstruction,
                   responseModalities = [IMAGE, TEXT]\<rparr>"
  let ?r1 = "\<lparr>candidate_parts = Some [\<lparr>inlineData_data = None\<rparr>],
               response_text = Some ''I can not do that.''\<rparr>"
  let ?r2 = "\<lparr>candidate_parts = None, response_text = None :: string option\<rparr>"
  have req: "edit_request ?body = Inr ?params"
    by (simp add: edit_request_def)
  have a: "\<forall>ps. candidate_parts ?r1 = Some ps \<longrightarrow> (\<forall>part \<in> set ps. \<not> truthy (inlineData_data part))"
    by (simp add: truthy_def)
  have b: "\<forall>ps. candidate_parts ?r2 = Some ps \<longrightarrow> (\<forall>part \<in> set ps. \<not> truthy (inlineData_data part))"
    by simp
  have t: "\<not> str_includes ''I can not do that.'' ''API key not valid''"
    "\<not> str_includes ''I can not do that.'' ''429''"
    by simp_all
  from edit_no_image_response [of ?body ?params "\<lambda>params. Inr ?r1" ?r1 "''I can not do that.''", OF req _ a] t
  have 1: "edit_route (\<lambda>params. Inr ?r1) ?body =
     \<lparr>status = 400, json = Inr [(''error'', ''Image generation failed: I can not do that.'')]\<rparr>"
    by simp
  from edit_no_image_response [of ?body ?params "\<lambda>params. Inr ?r2" ?r2 "[]", OF req _ b]
  have 2: "edit_route (\<lambda>params. Inr ?r2) ?body =
     \<lparr>status = 500, json = Inr [(''error'', ''Failed to process request due to an API error.'')]\<rparr>"
    by (simp add: truthy_def)
  from 1 2 show ?thesis by simp
qed

text \<open>
  C5: an edit call without a mask dispatches one request whose body has no
  \<^verbatim>\<open>maskBase64Data\<close> key, and on that body the backend builds a payload exactly when
  prompt, image data and MIME type are non-empty: the image part, then a text part that
  is the prompt itself.
\<close>

theorem edit_without_mask:
  "snd (editImage net p (Some imageData) mime None) =
     [\<lparr>endpoint = ''/api/edit'', http_method = ''POST'', content_type = ''application/json'',
       request_body = [(''prompt'', p), (''imageBase64Data'', imageData), (''mimeType'', mime)]\<rparr>] \<and>
   map_of [(''prompt'', p), (''imageBase64Data'', imageData), (''mimeType'', mime)] ''maskBase64Data'' = None \<and>
   (edit_request [(''prompt'', p), (''imageBase64Data'', imageData), (''mimeType'', mime)] = Inr params) =
     (p \<noteq> [] \<and> imageData \<noteq> [] \<and> mime \<noteq> [] \<and>
      params = \<lparr>model = ''gemini-2.5-flash-image'',
                parts = [InlineData imageData mime, TextPart p],
                systemInstruction = edit_systemInstruction,
                responseModalities = [IMAGE, TEXT]\<rparr>)"
proof -
  have 1: "snd (editImage net p (Some imageData) mime None) =
     [\<lparr>endpoint = ''/api/edit'', http_method = ''POST'', content_type = ''application/json'',
       request_body = [(''prompt'', p), (''imageBase64Data'', imageData), (''mimeType'', mime)]\<rparr>]"
    by (simp add: editImage_def imageBase64_of_def fetchApi_def Let_def split: sum.splits option.splits)
  have 2: "map_of [(''prompt'', p), (''imageBase64Data'', imageData), (''mimeType'', mime)] ''maskBase64Data'' = None"
    by simp
  have 3: "(edit_request [(''prompt'', p), (''imageBase64Data'', imageData), (''mimeType'', mime)] = Inr params) =
     (p \<noteq> [] \<and> imageData \<noteq> [] \<and> mime \<noteq> [] \<and>
      params = \<lparr>model = ''gemini-2.5-flash-image'',
                parts = [InlineData imageData mime, TextPart p],
                systemInstruction = edit_systemInstruction,
                responseModalities = [IMAGE, TEXT]\<rparr>)"
    unfolding edit_request_Inr_iff by auto
  from 1 2 3 show ?thesis by (intro conjI)
qed

theorem edit_without_mask_witness:
  "edit_request [(''prompt'', ''add a hat''), (''imageBase64Data'', ''QUJD''), (''mimeType'', ''image/webp'')] =
     Inr \<lparr>model = ''gemini-2.5-flash-image'',
          parts = [InlineData ''QUJD'' ''image/webp'', TextPart ''add a hat''],
          systemInstruction = edit_systemInstruction,
          responseModalities = [IMAGE, TEXT]\<rparr>"
  using edit_without_mask [of "\<lambda>r. Inl NonError" "''add a hat''" "''QUJD''" "''image/webp''"
      "\<lparr>model = ''gemini-2.5-flash-image'',
          parts = [InlineData ''QUJD'' ''image/webp'', TextPart ''add a hat''],
          systemInstruction = edit_systemInstruction,
          responseModalities = [IMAGE, TEXT]\<rparr>"]
  by simp


section \<open>The transport layer: errors\<close>

lemma fetchApi_not_ok:
  assumes "net \<lparr>endpoint = ep, http_method = ''POST'', content_type = ''application/json'',
                 request_body = JSON_stringify body\<rparr> = Inr response"
    and "\<not> response_ok response"
  shows "fst (fetchApi net ep body) =
     Inl (Error
       (case map_of (case json response of
                       Inl _ \<Rightarrow> [(''error'', ''An unknown error occurred.'')]
                     | Inr d \<Rightarrow> d) ''error'' of
          Some e \<Rightarrow>
            if e \<noteq> [] then e
            else ''Request failed with status '' @ string_of_nat (status response)
        | None \<Rightarrow> ''Request failed with status '' @ string_of_nat (status response)))"
  using assms by (simp add: fetchApi_def Let_def del: string_of_nat.simps)

text \<open>
  C8: when the response to the request of \<^verbatim>\<open>fetchApi\<close> is not 2xx, the thrown error's
  message is the text of the body's error field, for every response that the backend
  produces (its error field is never empty) and for every body with a non-empty error
  field; when the body is not JSON the message is \<^verbatim>\<open>An unknown error occurred.\<close>
\<close>

theorem fetchApi_error_message:
  assumes "net \<lparr>endpoint = ep, http_method = ''POST'', content_type = ''application/json'',
                 request_body = JSON_stringify body\<rparr> = Inr response"
    and "\<not> response_ok response"
  shows "(server_post ai rq = Some response \<longrightarrow>
            (\<exists>e. json response = Inr [(''error'', e)] \<and> fst (fetchApi net ep body) = Inl (Error e))) \<and>
         (json response = Inr d \<and> map_of d ''error'' = Some e \<and> e \<noteq> [] \<longrightarrow>
            fst (fetchApi net ep body) = Inl (Error e)) \<and>
         (json response = Inl x \<longrightarrow>
            fst (fetchApi net ep body) = Inl (Error ''An unknown error occurred.''))"
proof (intro conjI impI)
  note thrown = fetchApi_not_ok [of net ep body response, OF assms]
  assume "server_post ai rq = Some response"
  then obtain e where "e \<noteq> []" and "json response = Inr [(''error'', e)]"
    using server_error_response assms(2) by blast
  moreover from this have "fst (fetchApi net ep body) = Inl (Error e)"
    unfolding thrown by simp
  ultimately show "\<exists>e. json response = Inr [(''error'', e)] \<and> fst (fetchApi net ep body) = Inl (Error e)"
    by simp
next
  note thrown = fetchApi_not_ok [of net ep body response, OF assms]
  assume "json response = Inr d \<and> map_of d ''error'' = Some e \<and> e \<noteq> []"
  then show "fst (fetchApi net ep body) = Inl (Error e)"
    unfolding thrown by simp
next
  note thrown = fetchApi_not_ok [of net ep body response, OF assms]
  assume "json response = Inl x"
  then show "fst (fetchApi net ep body) = Inl (Error ''An unknown error occurred.'')"
    unfolding thrown by simp
qed

theorem fetchApi_error_message_witness:
  "server_post
     \<lparr>generateImages = (\<lambda>params. Inl (Error ''API key not valid. Please pass a valid API key.'')),
      generateContent = (\<lambda>params. Inl NonError)\<rparr>
     \<lparr>endpoint = ''/api/generate'', http_method = ''POST'', content_type = ''application/json'',
      request_body = [(''prompt'', ''a cat''), (''aspectRatio'', ''1:1'')]\<rparr> =
     Some \<lparr>status = 401, json = Inr [(''error'', ''The provided API key is not valid.'')]\<rparr> \<and>
   fst (fetchApi
          (\<lambda>req. Inr \<lparr>status = 401, json = Inr [(''error'', ''The provided API key is not valid.'')]\<rparr>)
          ''/api/generate'' [(''prompt'', Some ''a cat''), (''aspectRatio'', Some ''1:1'')]) =
     Inl (Error ''The provided API key is not valid.'') \<and>
   fst (fetchApi (\<lambda>req. Inr \<lparr>status = 502, json = Inl NonError\<rparr>)
          ''/api/generate'' [(''prompt'', Some ''a cat''), (''aspectRatio'', Some ''1:1'')]) =
     Inl (Error ''An unknown error occurred.'')"
proof -
  let ?response = "\<lparr>status = 401, json = Inr [(''error'', ''The provided API key is not valid.'')]\<rparr>"
  let ?net = "\<lambda>req :: http_request. (Inr ?response :: js_error + http_response)"
  let ?ai = "\<lparr>generateImages = (\<lambda>params. Inl (Error ''API key not valid. Please pass a valid API key.'')),
              generateContent = (\<lambda>params. Inl NonError)\<rparr>"
  let ?rq = "\<lparr>endpoint = ''/api/generate'', http_method = ''POST'', content_type = ''application/json'',
              request_body = [(''prompt'', ''a cat''), (''aspectRatio'', ''1:1'')]\<rparr>"
  have srv: "server_post ?ai ?rq = Some ?response"
    by (simp add: server_post_def generate_route_def generate_request_def handleApiErrorResponse_def
          res_status_json_def)
  have nok: "\<not> response_ok ?response"
    by (simp add: response_ok_def)
  have net: "?net \<lparr>endpoint = ''/api/generate'', http_method = ''POST'', content_type = ''application/json'',
                 request_body = JSON_stringify [(''prompt'', Some ''a cat''), (''aspectRatio'', Some ''1:1'')]\<rparr>
               = Inr ?response"
    by simp
  from fetchApi_error_message
         [of ?net "''/api/generate''" "[(''prompt'', Some ''a cat''), (''aspectRatio'', Some ''1:1'')]"
             ?response ?ai ?rq, OF net nok] srv
  have 1: "fst (fetchApi ?net ''/api/generate'' [(''prompt'', Some ''a cat''), (''aspectRatio'', Some ''1:1'')]) =
     Inl (Error ''The provided API key is not valid.'')"
    by simp
  let ?gateway = "\<lparr>status = 502, json = Inl NonError\<rparr>"
  let ?net2 = "\<lambda>req :: http_request. (Inr ?gateway :: js_error + http_response)"
  have nok2: "\<not> response_ok ?gateway"
    by (simp add: response_ok_def)
  have net2: "?net2 \<lparr>endpoint = ''/api/generate'', http_method = ''POST'', content_type = ''application/json'',
                 request_body = JSON_stringify [(''prompt'', Some ''a cat''), (''aspectRatio'', Some ''1:1'')]\<rparr>
               = Inr ?gateway"
    by simp
  from fetchApi_error_message
         [of ?net2 "''/api/generate''" "[(''prompt'', Some ''a cat''), (''aspectRatio'', Some ''1:1'')]"
             ?gateway ?ai ?rq "[]" "[]" NonError, OF net2 nok2]
  have 2: "fst (fetchApi ?net2 ''/api/generate'' [(''prompt'', Some ''a cat''), (''aspectRatio'', Some ''1:1'')]) =
     Inl (Error ''An unknown error occurred.'')"
    by simp
  from srv 1 2 show ?thesis by (intro conjI)
qed


section \<open>The application: history, validation, re-edit\<close>

text \<open>
  C6: a new result is stored as the head of the history and the list is cut to six
  entries: the new history is the new URL followed by the five most recent earlier entries
  in their order, it never has more than six entries, and when it already had six the
  oldest (last) one is dropped.
\<close>

theorem history_bounded:
  "history (handleApiResponse closure_mode closure_image imageBase64 s) =
     take 6 ((''data:image/jpeg;base64,'' @ imageBase64) # history s) \<and>
   history (handleApiResponse closure_mode closure_image imageBase64 s) =
     (''data:image/jpeg;base64,'' @ imageBase64) # take 5 (history s) \<and>
   length (history (handleApiResponse closure_mode closure_image imageBase64 s)) \<le> 6 \<and>
   (length (history s) = 6 \<longrightarrow>
      history (handleApiResponse closure_mode closure_image imageBase64 s) =
        (''data:image/jpeg;base64,'' @ imageBase64) # butlast (history s))"
proof -
  have h: "history (handleApiResponse closure_mode closure_image imageBase64 s) =
     take 6 ((''data:image/jpeg;base64,'' @ imageBase64) # history s)"
    by (simp add: handleApiResponse_def Let_def del: append.simps split: option.splits)
  have t: "take 6 (u # hs) = u # take 5 hs" for u :: string and hs
    by (simp add: take_Cons')
  have b: "length hs = 6 \<Longrightarrow> take 5 hs = butlast hs" for hs :: "string list"
    by (simp add: butlast_conv_take)
  show ?thesis
    unfolding h t using b [of "history s"] by simp
qed

theorem history_bounded_witness:
  "length [''f'', ''e'', ''d'', ''c'', ''b'', ''a''] = 6 \<and>
   history (handleApiResponse Generate None ''Zw'' (initial_app\<lparr>history := [''f'', ''e'', ''d'', ''c'', ''b'', ''a'']\<rparr>)) =
     [''data:image/jpeg;base64,Zw'', ''f'', ''e'', ''d'', ''c'', ''b'']"
  using history_bounded [of Generate None "''Zw''" "initial_app\<lparr>history := [''f'', ''e'', ''d'', ''c'', ''b'', ''a'']\<rparr>"]
  by simp

lemma generateImage_dispatches:
  "snd (generateImage net p ar) =
     [\<lparr>endpoint = ''/api/generate'', http_method = ''POST'', content_type = ''application/json'',
       request_body = [(''prompt'', p), (''aspectRatio'', ar)]\<rparr>]"
  by (simp add: generateImage_def imageBase64_of_def fetchApi_def Let_def
        split: sum.splits option.splits prod.splits)

lemma handleGenerate_dispatches:
  "trim (prompt s) \<noteq> [] \<Longrightarrow>
   snd (handleGenerate closure_mode closure_image net s) =
     [\<lparr>endpoint = ''/api/generate'', http_method = ''POST'', content_type = ''application/json'',
       request_body = [(''prompt'', prompt s), (''aspectRatio'', aspectRatio s)]\<rparr>]"
  by (simp add: handleGenerate_def generateImage_def imageBase64_of_def fetchApi_def Let_def
        split: sum.splits option.splits prod.splits)

text \<open>
  C7: with a prompt that is empty or consists of white space only, \<^verbatim>\<open>handleGenerate\<close>
  sets the error \<^verbatim>\<open>Please enter a prompt.\<close> and dispatches no request, whatever the
  network is. (The check is made by the handler, the only caller of \<^verbatim>\<open>generateImage\<close>,
  which has no check of its own: see \<open>generateImage_dispatches\<close>. Any other prompt sends
  the request of \<open>handleGenerate_dispatches\<close>.)
\<close>

theorem generate_blank_prompt_rejected:
  assumes "\<forall>c \<in> set (prompt s). is_ws c"
  shows "handleGenerate closure_mode closure_image net s = (s\<lparr>error := Some ''Please enter a prompt.''\<rparr>, [])"
  using assms by (simp add: handleGenerate_def trim_blank)

theorem generate_blank_prompt_rejected_witness:
  "list_all is_ws [CHR 0x20, CHR 0x09, CHR 0x0A] \<and>
   handleGenerate Generate None (\<lambda>req. Inl NonError) (initial_app\<lparr>prompt := [CHR 0x20, CHR 0x09, CHR 0x0A]\<rparr>) =
     (initial_app\<lparr>prompt := [CHR 0x20, CHR 0x09, CHR 0x0A], error := Some ''Please enter a prompt.''\<rparr>, []) \<and>
   handleGenerate Generate None (\<lambda>req. Inl NonError) initial_app =
     (initial_app\<lparr>error := Some ''Please enter a prompt.''\<rparr>, [])"
proof -
  have ws: "\<forall>c \<in> set [CHR 0x20, CHR 0x09, CHR 0x0A]. is_ws c"
    by (simp add: is_ws_def)
  have 1: "handleGenerate Generate None (\<lambda>req. Inl NonError) (initial_app\<lparr>prompt := [CHR 0x20, CHR 0x09, CHR 0x0A]\<rparr>) =
     (initial_app\<lparr>prompt := [CHR 0x20, CHR 0x09, CHR 0x0A], error := Some ''Please enter a prompt.''\<rparr>, [])"
    using generate_blank_prompt_rejected
      [of "initial_app\<lparr>prompt := [CHR 0x20, CHR 0x09, CHR 0x0A]\<rparr>" Generate None "\<lambda>req. Inl NonError"] ws
    by simp
  have 2: "handleGenerate Generate None (\<lambda>req. Inl NonError) initial_app =
     (initial_app\<lparr>error := Some ''Please enter a prompt.''\<rparr>, [])"
    using generate_blank_prompt_rejected [of initial_app Generate None "\<lambda>req. Inl NonError"]
    by (simp add: initial_app_def)
  from ws 1 2 show ?thesis by (simp add: list_all_iff)
qed

lemma mime_match_jpeg: "mime_match (''data:image/jpeg;base64,'' @ b) = Some ''image/jpeg''"
  by (simp add: mime_match_here_def is_word_char_def)

lemma handleApiResponse_generatedImage:
  "generatedImage (handleApiResponse closure_mode closure_image imageBase64 s) = Some (''data:image/jpeg;base64,'' @ imageBase64)"
  by (simp add: handleApiResponse_def Let_def del: append.simps split: option.splits)

lemma handleReEdit_jpeg:
  assumes "generatedImage s = Some (''data:image/jpeg;base64,'' @ b)"
  shows "uploadedImage (handleReEdit s) =
           Some \<lparr>dataUrl = ''data:image/jpeg;base64,'' @ b, mimeType = ''image/jpeg''\<rparr>"
  unfolding handleReEdit_def assms using mime_match_jpeg [of b]
  by (simp del: append.simps mime_match.simps)

lemma map_of_edit_body_mimeType:
  "map_of (JSON_stringify [(''prompt'', Some p), (''imageBase64Data'', d), (''mimeType'', Some mt),
                           (''maskBase64Data'', m)]) ''mimeType'' = Some mt"
  by (cases d; cases m) simp_all

lemma editImage_requests:
  "snd (editImage net p d mt m) =
     [\<lparr>endpoint = ''/api/edit'', http_method = ''POST'', content_type = ''application/json'',
       request_body = JSON_stringify [(''prompt'', Some p), (''imageBase64Data'', d),
                                      (''mimeType'', Some mt), (''maskBase64Data'', m)]\<rparr>]"
  by (simp add: editImage_def imageBase64_of_def fetchApi_def Let_def del: JSON_stringify.simps
        split: sum.splits option.splits prod.splits)

lemma handleEdit_dispatch:
  assumes "uploadedImage s = Some up"
  shows "snd (handleEdit closure_mode br net s) =
     (if trim (prompt s) = [] then []
      else (case getMaskAsBase64 br (drawingCanvas s) of
              Inl err \<Rightarrow> []
            | Inr maskBase64Data \<Rightarrow>
                snd (editImage net (prompt s) (index1 (split_on (CHR '','') (dataUrl up)))
                       (mimeType up) maskBase64Data)))"
  unfolding handleEdit_def using assms
  by (auto simp: Let_def split: sum.splits prod.splits)

lemma handleEdit_requests:
  assumes "uploadedImage s = Some up" and "req \<in> set (snd (handleEdit closure_mode br net s))"
  shows "map_of (request_body req) ''mimeType'' = Some (mimeType up)"
proof -
  from assms(2) obtain d m where "req \<in> set (snd (editImage net (prompt s) d (mimeType up) m))"
    unfolding handleEdit_dispatch [OF assms(1)]
    by (auto split: if_splits sum.splits)
  then show ?thesis
    unfolding editImage_requests using map_of_edit_body_mimeType by simp
qed

text \<open>
  C10: a result is stored, as the generated image and as the head of the history, as the
  URL \<^verbatim>\<open>data:image/jpeg;base64,\<close> followed by the returned data, whatever it encodes;
  re-edit makes it the uploaded image with the MIME type \<^verbatim>\<open>image/jpeg\<close>, and every request
  that \<^verbatim>\<open>handleEdit\<close> then dispatches for that image carries this MIME type.
\<close>

theorem reedit_mime_is_jpeg:
  "generatedImage (handleApiResponse closure_mode closure_image imageBase64 s) =
     Some (''data:image/jpeg;base64,'' @ imageBase64) \<and>
   hd (history (handleApiResponse closure_mode closure_image imageBase64 s)) = ''data:image/jpeg;base64,'' @ imageBase64 \<and>
   uploadedImage (handleReEdit (handleApiResponse closure_mode closure_image imageBase64 s)) =
     Some \<lparr>dataUrl = ''data:image/jpeg;base64,'' @ imageBase64, mimeType = ''image/jpeg''\<rparr> \<and>
   (uploadedImage s' = uploadedImage (handleReEdit (handleApiResponse closure_mode closure_image imageBase64 s)) \<longrightarrow>
      (\<forall>req \<in> set (snd (handleEdit edit_closure_mode br net s')).
         map_of (request_body req) ''mimeType'' = Some ''image/jpeg''))"
proof -
  have g: "generatedImage (handleApiResponse closure_mode closure_image imageBase64 s) =
     Some (''data:image/jpeg;base64,'' @ imageBase64)"
    by (rule handleApiResponse_generatedImage)
  have h: "hd (history (handleApiResponse closure_mode closure_image imageBase64 s)) = ''data:image/jpeg;base64,'' @ imageBase64"
    by (simp add: handleApiResponse_def Let_def del: append.simps split: option.splits)
  have u: "uploadedImage (handleReEdit (handleApiResponse closure_mode closure_image imageBase64 s)) =
     Some \<lparr>dataUrl = ''data:image/jpeg;base64,'' @ imageBase64, mimeType = ''image/jpeg''\<rparr>"
    by (rule handleReEdit_jpeg [OF g])
  have e: "\<forall>req \<in> set (snd (handleEdit edit_closure_mode br net s')).
         map_of (request_body req) ''mimeType'' = Some ''image/jpeg''"
    if "uploadedImage s' = uploadedImage (handleReEdit (handleApiResponse closure_mode closure_image imageBase64 s))"
    using handleEdit_requests [of s' _ _ edit_closure_mode br net] that unfolding u by fastforce
  from g h u e show ?thesis by (intro conjI impI)
qed

theorem reedit_mime_is_jpeg_witness:
  "uploadedImage ((handleReEdit (handleApiResponse Generate None ''Zw'' initial_app))\<lparr>prompt := ''add a hat''\<rparr>) =
     uploadedImage (handleReEdit (handleApiResponse Generate None ''Zw'' initial_app)) \<and>
   snd (handleEdit Edit
          \<lparr>toDataURL_png = (\<lambda>c. []), indexSizeError_message = [],
           stroke_coverage = (\<lambda>w h lw p q i. 0), arc_coverage = (\<lambda>w h p r i. 0), blend_alpha = (\<lambda>a b. a)\<rparr>
          (\<lambda>req. Inl NonError)
          ((handleReEdit (handleApiResponse Generate None ''Zw'' initial_app))\<lparr>prompt := ''add a hat''\<rparr>)) =
     [\<lparr>endpoint = ''/api/edit'', http_method = ''POST'', content_type = ''application/json'',
       request_body = [(''prompt'', ''add a hat''), (''imageBase64Data'', ''Zw''),
                       (''mimeType'', ''image/jpeg'')]\<rparr>] \<and>
   map_of (request_body (hd (snd (handleEdit Edit
          \<lparr>toDataURL_png = (\<lambda>c. []), indexSizeError_message = [],
           stroke_coverage = (\<lambda>w h lw p q i. 0), arc_coverage = (\<lambda>w h p r i. 0), blend_alpha = (\<lambda>a b. a)\<rparr>
          (\<lambda>req. Inl NonError)
          ((handleReEdit (handleApiResponse Generate None ''Zw'' initial_app))\<lparr>prompt := ''add a hat''\<rparr>)))))
     ''mimeType'' = Some ''image/jpeg''"
proof -
  let ?s = "(handleReEdit (handleApiResponse Generate None ''Zw'' initial_app))\<lparr>prompt := ''add a hat''\<rparr>"
  let ?br = "\<lparr>toDataURL_png = (\<lambda>c. []), indexSizeError_message = [],
           stroke_coverage = (\<lambda>w h lw p q i. 0), arc_coverage = (\<lambda>w h p r i. 0), blend_alpha = (\<lambda>a b. a)\<rparr>"
  have 1: "uploadedImage ?s = uploadedImage (handleReEdit (handleApiResponse Generate None ''Zw'' initial_app))"
    by simp
  have t: "trim ''add a hat'' = ''add a hat''"
    by (simp add: trim_def is_ws_def)
  have s: "?s = \<lparr>mode = Edit, prompt = ''add a hat'',
                uploadedImage = Some \<lparr>dataUrl = ''data:image/jpeg;base64,Zw'', mimeType = ''image/jpeg''\<rparr>,
                aspectRatio = ''1:1'', generatedImage = None, comparisonImage = None,
                history = [''data:image/jpeg;base64,Zw''], isLoading = False, error = None,
                brushSize = 20, drawingCanvas = None, isDrawing = False, lastPos = None\<rparr>"
    by (simp add: handleReEdit_def handleApiResponse_def initial_app_def mime_match_here_def Let_def
          is_word_char_def)
  have 2: "snd (handleEdit Edit ?br (\<lambda>req. Inl NonError) ?s) =
     [\<lparr>endpoint = ''/api/edit'', http_method = ''POST'', content_type = ''application/json'',
       request_body = [(''prompt'', ''add a hat''), (''imageBase64Data'', ''Zw''),
                       (''mimeType'', ''image/jpeg'')]\<rparr>]"
    unfolding s
    by (simp add: handleEdit_def t getMaskAsBase64_def index1_def editImage_def fetchApi_def Let_def
          imageBase64_of_def clearState_def handleApiError_def)
  from reedit_mime_is_jpeg [of Generate None "''Zw''" initial_app ?s Edit ?br "\<lambda>req. Inl NonError"] 1
  have all: "\<forall>req \<in> set (snd (handleEdit Edit ?br (\<lambda>req. Inl NonError) ?s)).
      map_of (request_body req) ''mimeType'' = Some ''image/jpeg''"
    by blast
  have "hd (snd (handleEdit Edit ?br (\<lambda>req. Inl NonError) ?s)) \<in> set (snd (handleEdit Edit ?br (\<lambda>req. Inl NonError) ?s))"
    unfolding 2 by simp
  with all have 3: "map_of (request_body (hd (snd (handleEdit Edit ?br (\<lambda>req. Inl NonError) ?s))))
     ''mimeType'' = Some ''image/jpeg''"
    by blast
  from 1 2 3 show ?thesis by (intro conjI)
qed


section \<open>The mask canvas: compositing and export\<close>



lemma round_div_zero: "0 < d \<Longrightarrow> round_div 0 d = 0"
  by (simp add: round_div_def)

lemma uint32_transparent: "uint32 transparent = 0"
  by (simp add: uint32_def transparent_def)










lemma positive_clearRect:
  "0 < width c \<and> 0 < height c \<Longrightarrow> 0 < width (clearRect c) \<and> 0 < height (clearRect c)"
  by (simp add: clearRect_def)

lemma positive_paint_black:
  "0 < width c \<and> 0 < height c \<Longrightarrow>
   0 < width (paint_black br cov c) \<and> 0 < height (paint_black br cov c)"
  by (simp add: paint_black_def)

lemma positive_created: "0 < width (createCanvas 300 150) \<and> 0 < height (createCanvas 300 150)"
  by (simp add: createCanvas_def)




lemma render_canvas:
  "drawingCanvas (render s) = Some c \<Longrightarrow> drawingCanvas s = Some c \<or> c = createCanvas 300 150"
  by (auto simp: render_def split: if_splits option.splits)

lemma canvas_step_invariant:
  assumes clear: "\<And>c. P c \<Longrightarrow> P (clearRect c)"
    and paint: "\<And>c cov. P c \<Longrightarrow> P (paint_black br cov c)"
    and created: "unmounts e \<Longrightarrow> P (createCanvas 300 150)"
    and inv: "\<forall>c. drawingCanvas s = Some c \<longrightarrow> P c"
  shows "\<forall>c. drawingCanvas (canvas_step br s e) = Some c \<longrightarrow> P c"
proof (cases e)
  case (MouseDown rect ev)
  with inv show ?thesis by (simp add: startDrawing_def split: option.splits)
next
  case (MouseMove rect ev)
  with inv paint show ?thesis
    by (auto simp: draw_def Let_def split: option.splits)
next
  case MouseUp
  with inv show ?thesis by (simp add: stopDrawing_def)
next
  case (BrushSize n)
  with inv show ?thesis by simp
next
  case ClearMask
  with inv clear show ?thesis by (auto simp: clearMask_def split: option.splits)
next
  case (SetMode m)
  with inv created render_canvas [of "s\<lparr>mode := m\<rparr>"] show ?thesis by auto
next
  case RemoveImage
  with inv created render_canvas [of "s\<lparr>uploadedImage := None\<rparr>"] show ?thesis by auto
qed

lemma canvas_events_invariant:
  assumes clear: "\<And>c. P c \<Longrightarrow> P (clearRect c)"
    and paint: "\<And>c cov. P c \<Longrightarrow> P (paint_black br cov c)"
    and created: "list_ex unmounts evs \<Longrightarrow> P (createCanvas 300 150)"
    and inv: "\<forall>c. drawingCanvas s = Some c \<longrightarrow> P c"
  shows "\<forall>c. drawingCanvas (canvas_events br evs s) = Some c \<longrightarrow> P c"
  using created inv unfolding canvas_events_def
proof (induction evs arbitrary: s)
  case Nil
  then show ?case by simp
next
  case (Cons e evs)
  have first: "unmounts e \<Longrightarrow> P (createCanvas 300 150)"
    using Cons.prems(1) by simp
  have rest: "list_ex unmounts evs \<Longrightarrow> P (createCanvas 300 150)"
    using Cons.prems(1) by simp
  have step: "\<forall>c. drawingCanvas (canvas_step br s e) = Some c \<longrightarrow> P c"
    by (rule canvas_step_invariant [where P = P, OF clear paint first Cons.prems(2)])
  have "\<forall>c. drawingCanvas (foldl (canvas_step br) (canvas_step br s e) evs) = Some c \<longrightarrow> P c"
    by (rule Cons.IH [OF rest step])
  then show ?case by simp
qed





lemma export_empty:
  assumes "0 < width c" and "0 < height c" and "\<forall>p \<in> set (pixels c). uint32 p = 0"
  shows "getMaskAsBase64 br (Some c) = Inr None"
  using assms by (simp add: getMaskAsBase64_def list_ex_iff)

lemma export_cleared:
  assumes "0 < width c" and "0 < height c"
  shows "getMaskAsBase64 br (Some (clearRect c)) = Inr None"
  using assms by (intro export_empty) (simp_all add: clearRect_def uint32_transparent)







text \<open>
  C3: the export of a mask layer without a single non-zero pixel word is \<^verbatim>\<open>null\<close>: for
  any canvas of positive size whose pixel words are all zero, for the canvas as the load
  of an image of positive natural size leaves it, and after \<^verbatim>\<open>clearMask\<close> following any
  sequence of pointer events, brush changes, earlier clears, mode switches and removals
  (the canvas, if mounted, having a positive size, as every canvas that shows a decoded
  image has).
\<close>

theorem mask_export_absent:
  "(0 < width c \<and> 0 < height c \<and> (\<forall>p \<in> set (pixels c). uint32 p = 0) \<longrightarrow>
      getMaskAsBase64 br (Some c) = Inr None) \<and>
   (0 < w \<and> 0 < h \<longrightarrow>
      getMaskAsBase64 br (drawingCanvas (image_onload w h s)) = Inr None) \<and>
   ((\<forall>c. drawingCanvas s = Some c \<longrightarrow> 0 < width c \<and> 0 < height c) \<longrightarrow>
      getMaskAsBase64 br (drawingCanvas (clearMask (canvas_events br evs s))) = Inr None)"
proof (intro conjI impI)
  assume "0 < width c \<and> 0 < height c \<and> (\<forall>p \<in> set (pixels c). uint32 p = 0)"
  then show "getMaskAsBase64 br (Some c) = Inr None"
    by (simp add: export_empty)
next
  assume wh: "0 < w \<and> 0 < h"
  show "getMaskAsBase64 br (drawingCanvas (image_onload w h s)) = Inr None"
  proof (cases "drawingCanvas s")
    case None
    then show ?thesis by (simp add: image_onload_def getMaskAsBase64_def)
  next
    case (Some c0)
    then have "drawingCanvas (image_onload w h s) = Some (clearRect (createCanvas w h))"
      by (simp add: image_onload_def)
    moreover have "getMaskAsBase64 br (Some (clearRect (createCanvas w h))) = Inr None"
      using wh by (intro export_cleared) (simp_all add: createCanvas_def)
    ultimately show ?thesis by simp
  qed
next
  assume pos: "\<forall>c. drawingCanvas s = Some c \<longrightarrow> 0 < width c \<and> 0 < height c"
  let ?s = "canvas_events br evs s"
  have inv: "\<forall>c. drawingCanvas ?s = Some c \<longrightarrow> 0 < width c \<and> 0 < height c"
    by (rule canvas_events_invariant
              [where P = "\<lambda>c. 0 < width c \<and> 0 < height c",
               OF positive_clearRect positive_paint_black positive_created pos])
  show "getMaskAsBase64 br (drawingCanvas (clearMask ?s)) = Inr None"
  proof (cases "drawingCanvas ?s")
    case None
    then show ?thesis by (simp add: clearMask_def getMaskAsBase64_def)
  next
    case (Some c1)
    then have "drawingCanvas (clearMask ?s) = Some (clearRect c1)"
      by (simp add: clearMask_def)
    moreover have "getMaskAsBase64 br (Some (clearRect c1)) = Inr None"
      using inv Some by (intro export_cleared) simp_all
    ultimately show ?thesis by simp
  qed
qed

theorem mask_export_absent_witness:
  "drawingCanvas (image_onload 1 1 (initial_app\<lparr>drawingCanvas := Some (createCanvas 2 2)\<rparr>)) =
     Some \<lparr>width = 1, height = 1, pixels = [transparent]\<rparr> \<and>
   getMaskAsBase64
     \<lparr>toDataURL_png = (\<lambda>c. ''data:image/png;base64,AAAA''), indexSizeError_message = [],
      stroke_coverage = (\<lambda>w h lw p q i. 128), arc_coverage = (\<lambda>w h p r i. 0),
      blend_alpha = (\<lambda>a b. word_of_nat (round_div (255 * unat a + unat b * (255 - unat a)) 255))\<rparr>
     (drawingCanvas (clearMask (canvas_events
        \<lparr>toDataURL_png = (\<lambda>c. ''data:image/png;base64,AAAA''), indexSizeError_message = [],
         stroke_coverage = (\<lambda>w h lw p q i. 128), arc_coverage = (\<lambda>w h p r i. 0),
         blend_alpha = (\<lambda>a b. word_of_nat (round_div (255 * unat a + unat b * (255 - unat a)) 255))\<rparr>
        [MouseDown \<lparr>rect_left = Finite 0, rect_top = Finite 0, rect_width = Finite 10, rect_height = Finite 10\<rparr>
                   \<lparr>clientX = Finite 5, clientY = Finite 5\<rparr>,
         MouseMove \<lparr>rect_left = Finite 0, rect_top = Finite 0, rect_width = Finite 10, rect_height = Finite 10\<rparr>
                   \<lparr>clientX = Finite 6, clientY = Finite 5\<rparr>]
        (image_onload 1 1 (initial_app\<lparr>drawingCanvas := Some (createCanvas 2 2)\<rparr>))))) = Inr None \<and>
   getMaskAsBase64
     \<lparr>toDataURL_png = (\<lambda>c. ''data:image/png;base64,AAAA''), indexSizeError_message = [],
      stroke_coverage = (\<lambda>w h lw p q i. 128), arc_coverage = (\<lambda>w h p r i. 0),
      blend_alpha = (\<lambda>a b. word_of_nat (round_div (255 * unat a + unat b * (255 - unat a)) 255))\<rparr>
     (drawingCanvas (image_onload 3 2
        (image_onload 1 1 (initial_app\<lparr>drawingCanvas := Some (createCanvas 2 2)\<rparr>)))) = Inr None \<and>
   getMaskAsBase64
     \<lparr>toDataURL_png = (\<lambda>c. ''data:image/png;base64,AAAA''), indexSizeError_message = [],
      stroke_coverage = (\<lambda>w h lw p q i. 128), arc_coverage = (\<lambda>w h p r i. 0),
      blend_alpha = (\<lambda>a b. word_of_nat (round_div (255 * unat a + unat b * (255 - unat a)) 255))\<rparr>
     (Some \<lparr>width = 2, height = 1, pixels = [transparent, transparent]\<rparr>) = Inr None"
proof -
  let ?br = "\<lparr>toDataURL_png = (\<lambda>c. ''data:image/png;base64,AAAA''), indexSizeError_message = [],
      stroke_coverage = (\<lambda>w h lw p q i. 128), arc_coverage = (\<lambda>w h p r i. 0),
      blend_alpha = (\<lambda>a b. word_of_nat (round_div (255 * unat a + unat b * (255 - unat a)) 255))\<rparr>"
  let ?evs = "[MouseDown \<lparr>rect_left = Finite 0, rect_top = Finite 0, rect_width = Finite 10, rect_height = Finite 10\<rparr>
                   \<lparr>clientX = Finite 5, clientY = Finite 5\<rparr>,
         MouseMove \<lparr>rect_left = Finite 0, rect_top = Finite 0, rect_width = Finite 10, rect_height = Finite 10\<rparr>
                   \<lparr>clientX = Finite 6, clientY = Finite 5\<rparr>]"
  let ?s0 = "initial_app\<lparr>drawingCanvas := Some (createCanvas 2 2)\<rparr>"
  let ?c = "\<lparr>width = 2, height = 1, pixels = [transparent, transparent]\<rparr>"
  have pos: "\<forall>c. drawingCanvas (image_onload 1 1 ?s0) = Some c \<longrightarrow> 0 < width c \<and> 0 < height c"
    by (simp add: image_onload_def clearRect_def createCanvas_def)
  have empty: "0 < width ?c \<and> 0 < height ?c \<and> (\<forall>p \<in> set (pixels ?c). uint32 p = 0)"
    by (simp add: uint32_transparent)
  have size: "(0::nat) < 3 \<and> (0::nat) < 2"
    by simp
  have loaded: "drawingCanvas (image_onload 1 1 ?s0) = Some \<lparr>width = 1, height = 1, pixels = [transparent]\<rparr>"
    by (simp add: image_onload_def clearRect_def createCanvas_def)
  from mask_export_absent [of ?c ?br 3 2 "image_onload 1 1 ?s0" ?evs] pos empty size loaded
  show ?thesis by blast
qed




section \<open>The pointer coordinates: double arithmetic\<close>

lemma round_half_even_near: "\<bar>of_int (round_half_even q) - q\<bar> \<le> 1 / 2"
proof -
  have "of_int \<lfloor>q\<rfloor> \<le> q" "q < of_int \<lfloor>q\<rfloor> + 1"
    by linarith+
  then show ?thesis
    unfolding round_half_even_def Let_def by auto
qed

lemma round_half_even_eq:
  assumes "\<bar>of_int n - q\<bar> < 1 / 2"
  shows "round_half_even q = n"
proof -
  have fl: "of_int \<lfloor>q\<rfloor> \<le> q" "q < of_int \<lfloor>q\<rfloor> + 1"
    by linarith+
  show ?thesis
  proof (cases "of_int n \<le> q")
    case True
    with assms have "\<lfloor>q\<rfloor> = n" by (intro floor_unique) linarith+
    with assms True show ?thesis
      unfolding round_half_even_def Let_def by auto
  next
    case False
    with assms have "\<lfloor>q\<rfloor> = n - 1" by (intro floor_unique) (simp, linarith)+
    with assms False show ?thesis
      unfolding round_half_even_def Let_def by auto
  qed
qed

lemma round_double_exponent:
  fixes x :: real
  assumes "x \<noteq> 0" and "2 powr (of_int e) \<le> \<bar>x\<bar>" and "\<bar>x\<bar> < 2 powr (of_int (e + 1))"
    and "- 1022 \<le> e"
    and "\<bar>real_of_int (round_half_even (x / 2 powr (of_int e - 52))) * 2 powr (of_int e - 52)\<bar> < 2 ^ 1024"
  shows "round_double x =
           Finite (of_int (round_half_even (x / 2 powr (of_int e - 52))) * 2 powr (of_int e - 52))"
proof -
  have "\<lfloor>log 2 \<bar>x\<bar>\<rfloor> = e"
    using assms(1,2,3) floor_log_eq_powr_iff [of "\<bar>x\<bar>" 2 e] by simp
  then have "max \<lfloor>log 2 \<bar>x\<bar>\<rfloor> (- 1022) = e"
    using assms(4) by simp
  then show ?thesis
    using assms(1,5) unfolding round_double_def Let_def by simp
qed

lemma ulp_nat:
  fixes k :: nat
  assumes k: "k \<le> 52"
  shows "2 powr (of_int (int k) - 52) = 1 / (2::real) ^ (52 - k)"
proof -
  have "of_int (int k) - (52::real) = - real (52 - k)"
    using k by simp
  then have "2 powr (of_int (int k) - 52) = 2 powr (- real (52 - k))"
    by (simp only:)
  also have "\<dots> = inverse (2 powr (real (52 - k)))"
    by (rule powr_minus)
  also have "2 powr (real (52 - k)) = (2::real) ^ (52 - k)"
    by (rule powr_realpow) simp
  finally show ?thesis
    by (simp add: inverse_eq_divide)
qed

lemma scaled_below:
  fixes x :: real and k :: nat
  assumes hi: "x < 2 ^ Suc k" and k: "k \<le> 52"
  shows "x * 2 ^ (52 - k) < 2 ^ 53"
proof -
  have "x * 2 ^ (52 - k) < 2 ^ Suc k * 2 ^ (52 - k)"
    using hi by (intro mult_strict_right_mono) simp_all
  also have "\<dots> = (2::real) ^ (Suc k + (52 - k))"
    by (rule power_add [symmetric])
  also have "Suc k + (52 - k) = 53"
    using k by simp
  finally show ?thesis .
qed

lemma scaled_small:
  fixes n :: int and k :: nat
  assumes "\<bar>real_of_int n\<bar> < 2 ^ 53 + 1 / 2"
  shows "\<bar>real_of_int n / 2 ^ (52 - k)\<bar> < 2 ^ 1024"
proof -
  have "(1::real) \<le> 2 ^ (52 - k)" by simp
  then have "\<bar>real_of_int n\<bar> / 2 ^ (52 - k) \<le> \<bar>real_of_int n\<bar> / 1"
    by (intro divide_left_mono) simp_all
  then have "\<bar>real_of_int n / 2 ^ (52 - k)\<bar> \<le> \<bar>real_of_int n\<bar>"
    by simp
  moreover have "(2::real) ^ 53 + 1 / 2 < 2 ^ 54" by simp
  moreover have "(2::real) ^ 54 \<le> 2 ^ 1024" by (rule power_increasing) simp_all
  ultimately show ?thesis using assms by linarith
qed

lemma round_double_eval:
  fixes x :: real and k :: nat and n :: int
  assumes lo: "2 ^ k \<le> x" and hi: "x < 2 ^ Suc k" and k: "k \<le> 52"
    and n: "\<bar>of_int n - x * 2 ^ (52 - k)\<bar> < 1 / 2"
  shows "round_double x = Finite (of_int n / 2 ^ (52 - k))"
proof -
  have "(0::real) < 2 ^ k" by simp
  then have pos: "0 < x"
    using lo by linarith
  note ulp = ulp_nat [OF k]
  have q: "x / 2 powr (of_int (int k) - 52) = x * 2 ^ (52 - k)"
    unfolding ulp by simp
  have r: "round_half_even (x * 2 ^ (52 - k)) = n"
    using n by (rule round_half_even_eq)
  have "x * 2 ^ (52 - k) < 2 ^ 53"
    using hi k by (rule scaled_below)
  then have "real_of_int n < 2 ^ 53 + 1 / 2"
    using n by linarith
  moreover have "0 \<le> x * 2 ^ (52 - k)"
    using pos by simp
  then have "- (1 / 2) < real_of_int n"
    using n by linarith
  moreover have "(0::real) < 2 ^ 53"
    by simp
  ultimately have "\<bar>real_of_int n\<bar> < 2 ^ 53 + 1 / 2"
    by linarith
  then have small: "\<bar>real_of_int n / 2 ^ (52 - k)\<bar> < 2 ^ 1024"
    by (rule scaled_small)
  have "round_double x =
          Finite (of_int (round_half_even (x / 2 powr (of_int (int k) - 52))) * 2 powr (of_int (int k) - 52))"
  proof (rule round_double_exponent)
    show "x \<noteq> 0" using pos by simp
    have "2 powr (of_int (int k)) = (2::real) ^ k"
      using powr_realpow [of "2::real" k] by simp
    then show "2 powr (of_int (int k)) \<le> \<bar>x\<bar>"
      using lo pos by simp
    have "of_int (int k + 1) = real (Suc k)"
      by simp
    then have "2 powr (of_int (int k + 1)) = 2 powr (real (Suc k))"
      by (simp only:)
    also have "\<dots> = (2::real) ^ Suc k"
      by (rule powr_realpow) simp
    finally show "\<bar>x\<bar> < 2 powr (of_int (int k + 1))"
      using hi pos by simp
    show "- 1022 \<le> int k" by simp
    have "real_of_int n * (1 / 2 ^ (52 - k)) = real_of_int n / 2 ^ (52 - k)"
      by simp
    then show "\<bar>real_of_int (round_half_even (x / 2 powr (of_int (int k) - 52))) *
            2 powr (of_int (int k) - 52)\<bar> < 2 ^ 1024"
      unfolding q r unfolding ulp using small by (simp only:)
  qed
  then show ?thesis
    unfolding q r unfolding ulp by simp
qed

lemma round_double_rel:
  fixes x :: real
  assumes "x = 0 \<or> (1 / 2 ^ 1022 \<le> \<bar>x\<bar> \<and> \<bar>x\<bar> \<le> 2 ^ 1023)"
  shows "\<exists>d. \<bar>d\<bar> \<le> 1 / 2 ^ 53 \<and> round_double x = Finite (x * (1 + d))"
proof (cases "x = 0")
  case True
  then show ?thesis
    by (intro exI [of _ 0]) (simp add: round_double_def)
next
  case False
  with assms have lo: "1 / 2 ^ 1022 \<le> \<bar>x\<bar>" and hi: "\<bar>x\<bar> \<le> 2 ^ 1023"
    by auto
  have pos: "0 < \<bar>x\<bar>"
    using False by simp
  define e where "e = \<lfloor>log 2 \<bar>x\<bar>\<rfloor>"
  define ulp :: real where "ulp = 2 powr (of_int e - 52)"
  define n where "n = round_half_even (x / ulp)"
  have e: "2 powr (of_int e) \<le> \<bar>x\<bar>" "\<bar>x\<bar> < 2 powr (of_int (e + 1))"
    using floor_log_eq_powr_iff [of "\<bar>x\<bar>" 2 e] pos by (simp_all add: e_def)
  have "(2::real) powr (- 1022) = inverse (2 powr 1022)"
    by (rule powr_minus)
  also have "(2::real) powr 1022 = 2 ^ 1022"
    using powr_realpow [of "2::real" 1022] by simp
  finally have "(2::real) powr (- 1022) \<le> \<bar>x\<bar>"
    using lo by (simp add: inverse_eq_divide)
  then have "- 1022 \<le> log 2 \<bar>x\<bar>"
    using pos le_log_iff [of 2 "\<bar>x\<bar>" "- 1022"] by simp
  then have e_lo: "- 1022 \<le> e"
    unfolding e_def by (simp add: le_floor_iff)
  have ulp_pos: "0 < ulp"
    by (simp add: ulp_def)
  have "ulp = 2 powr (of_int e) / 2 powr 52"
    unfolding ulp_def by (rule powr_diff)
  also have "(2::real) powr 52 = 2 ^ 52"
    using powr_realpow [of "2::real" 52] by simp
  finally have ulp_e: "ulp = 2 powr (of_int e) / 2 ^ 52" .
  have near: "\<bar>of_int n - x / ulp\<bar> \<le> 1 / 2"
    unfolding n_def by (rule round_half_even_near)
  have "of_int n * ulp - x = (of_int n - x / ulp) * ulp"
    using ulp_pos by (simp add: field_simps)
  then have "\<bar>of_int n * ulp - x\<bar> = \<bar>of_int n - x / ulp\<bar> * ulp"
    using ulp_pos by (simp add: abs_mult)
  also have "\<dots> \<le> 1 / 2 * ulp"
    using near ulp_pos by (intro mult_right_mono) simp_all
  also have "\<dots> = 2 powr (of_int e) / 2 ^ 53"
    by (simp add: ulp_e)
  also have "\<dots> \<le> \<bar>x\<bar> / 2 ^ 53"
    using e(1) by (intro divide_right_mono) simp_all
  finally have err: "\<bar>of_int n * ulp - x\<bar> \<le> \<bar>x\<bar> / 2 ^ 53" .
  have "\<bar>x\<bar> / 2 ^ 53 \<le> 2 ^ 1023 / 2 ^ 53"
    using hi by (intro divide_right_mono) simp_all
  moreover have "(2::real) ^ 1023 + 2 ^ 1023 / 2 ^ 53 < 2 ^ 1024"
    by simp
  ultimately have small: "\<bar>of_int n * ulp\<bar> < 2 ^ 1024"
    using err hi by linarith
  have rd: "round_double x = Finite (of_int n * ulp)"
    unfolding n_def ulp_def
    by (rule round_double_exponent [OF False e e_lo]) (use small in \<open>simp only: n_def ulp_def\<close>)
  define d where "d = (of_int n * ulp - x) / x"
  have "\<bar>d\<bar> = \<bar>of_int n * ulp - x\<bar> / \<bar>x\<bar>"
    by (simp add: d_def)
  also have "\<dots> \<le> (\<bar>x\<bar> / 2 ^ 53) / \<bar>x\<bar>"
    using err pos by (intro divide_right_mono) simp_all
  also have "\<dots> = 1 / 2 ^ 53"
    using pos by simp
  finally have "\<bar>d\<bar> \<le> 1 / 2 ^ 53" .
  moreover have "x * (1 + d) = of_int n * ulp"
    using False by (simp add: d_def field_simps)
  ultimately show ?thesis
    using rd by (intro exI [of _ d]) simp
qed

lemma three_roundings:
  fixes d1 d2 d3 :: real
  assumes "\<bar>d1\<bar> \<le> 1 / 2 ^ 53" and "\<bar>d2\<bar> \<le> 1 / 2 ^ 53" and "\<bar>d3\<bar> \<le> 1 / 2 ^ 53"
  shows "\<bar>(1 + d1) * (1 + d2) * (1 + d3) - 1\<bar> \<le> 1 / 2 ^ 51"
proof -
  define t :: real where "t = 1 / 2 ^ 53"
  have t: "0 \<le> t" "t \<le> 1 / 64"
    by (simp_all add: t_def)
  have d: "\<bar>d1\<bar> \<le> t" "\<bar>d2\<bar> \<le> t" "\<bar>d3\<bar> \<le> t"
    using assms by (simp_all only: t_def)
  have tt: "t * t \<le> t / 64"
    using t mult_left_mono [of t "1 / 64" t] by simp
  have "\<bar>d1 * d2\<bar> \<le> t * t"
    unfolding abs_mult using d by (intro mult_mono) simp_all
  then have p: "\<bar>d1 + d2 + d1 * d2\<bar> \<le> 2 * t + t / 64"
    using d tt by linarith
  then have p3: "\<bar>d1 + d2 + d1 * d2\<bar> \<le> 3 * t"
    using t by linarith
  have "\<bar>(d1 + d2 + d1 * d2) * d3\<bar> \<le> (3 * t) * t"
    unfolding abs_mult using p3 d t by (intro mult_mono) simp_all
  then have "\<bar>(d1 + d2 + d1 * d2) * d3\<bar> \<le> 3 * (t / 64)"
    using tt by linarith
  then have "\<bar>(d1 + d2 + d1 * d2) + d3 + (d1 + d2 + d1 * d2) * d3\<bar> \<le> 4 * t"
    using p d t by linarith
  moreover have "(1 + d1) * (1 + d2) * (1 + d3) - 1 =
      (d1 + d2 + d1 * d2) + d3 + (d1 + d2 + d1 * d2) * d3"
    by (simp add: algebra_simps)
  moreover have "4 * t = 1 / 2 ^ 51"
    by (simp add: t_def)
  ultimately show ?thesis
    by (simp only:)
qed

lemma rounding_factor:
  fixes d :: real
  assumes "\<bar>d\<bar> \<le> 1 / 2 ^ 53"
  shows "1 / 2 \<le> 1 + d" and "1 + d \<le> 2"
proof -
  have "(1::real) / 2 ^ 53 \<le> 1 / 2"
    by simp
  with assms show "1 / 2 \<le> 1 + d" and "1 + d \<le> 2"
    by linarith+
qed

lemma product_lower:
  fixes u v :: real
  assumes "lo1 \<le> u" and "lo2 \<le> v" and "0 \<le> lo1" and "0 \<le> lo2"
  shows "lo1 * lo2 \<le> u * v"
proof (rule mult_mono)
  show "lo1 \<le> u" "lo2 \<le> v" "0 \<le> lo2" by fact+
  show "0 \<le> u" using assms(1,3) by linarith
qed

lemma product_upper:
  fixes u v :: real
  assumes "u \<le> hi1" and "v \<le> hi2" and "0 \<le> u" and "0 \<le> v"
  shows "u * v \<le> hi1 * hi2"
proof (rule mult_mono)
  show "u \<le> hi1" "v \<le> hi2" "0 \<le> v" by fact+
  show "0 \<le> hi1" using assms(1,3) by linarith
qed

lemma axis_coordinate:
  fixes l rw c :: real and W :: nat
  assumes rw: "1 / 2 ^ 400 \<le> rw" "rw \<le> 2 ^ 400"
    and a: "c = l \<or> (1 / 2 ^ 400 \<le> \<bar>c - l\<bar> \<and> \<bar>c - l\<bar> \<le> 2 ^ 400)"
    and W: "W < 2 ^ 32"
  shows "\<exists>x. num_mul (num_sub (Finite c) (Finite l)) (num_div (Finite (real W)) (Finite rw)) = Finite x \<and>
             \<bar>x - (c - l) / rw * real W\<bar> \<le> \<bar>(c - l) / rw * real W\<bar> / 2 ^ 51"
proof -
  define a where "a = c - l"
  define r where "r = real W / rw"
  have rw_pos: "0 < rw"
    using rw(1) by (rule less_le_trans [rotated]) simp
  have tiny: "(1::real) / 2 ^ 1022 \<le> 1 / 2 ^ 802" "(1::real) / 2 ^ 802 \<le> 1 / 2 ^ 400"
    by simp_all
  have huge: "(2::real) ^ 400 \<le> 2 ^ 432" "(2::real) ^ 432 \<le> 2 ^ 834" "(2::real) ^ 834 \<le> 2 ^ 1023"
    by simp_all
  have a_range: "a = 0 \<or> (1 / 2 ^ 400 \<le> \<bar>a\<bar> \<and> \<bar>a\<bar> \<le> 2 ^ 400)"
    using a by (auto simp: a_def)
  then have "a = 0 \<or> (1 / 2 ^ 1022 \<le> \<bar>a\<bar> \<and> \<bar>a\<bar> \<le> 2 ^ 1023)"
    using tiny huge by linarith
  then obtain d1 where d1: "\<bar>d1\<bar> \<le> 1 / 2 ^ 53" "round_double a = Finite (a * (1 + d1))"
    using round_double_rel [of a] by blast
  have r_nonneg: "0 \<le> r"
    using rw_pos by (simp add: r_def)
  have r_range: "r = 0 \<or> (1 / 2 ^ 400 \<le> r \<and> r \<le> 2 ^ 432)"
  proof (cases "W = 0")
    case True
    then show ?thesis by (simp add: r_def)
  next
    case False
    then have W1: "1 \<le> real W" by simp
    have "real W < 2 ^ 32"
      using W by (metis of_nat_less_iff of_nat_numeral of_nat_power)
    then have W2: "real W \<le> 2 ^ 32" by simp
    have "1 / 2 ^ 400 \<le> 1 / rw"
      using rw rw_pos by (intro divide_left_mono) simp_all
    also have "\<dots> \<le> real W / rw"
      using W1 rw_pos by (intro divide_right_mono) simp_all
    finally have lo: "1 / 2 ^ 400 \<le> r"
      by (simp only: r_def)
    have "real W / rw \<le> 2 ^ 32 / rw"
      using W2 rw_pos by (intro divide_right_mono) simp_all
    also have "\<dots> \<le> 2 ^ 32 / (1 / 2 ^ 400)"
      using rw rw_pos by (intro divide_left_mono) simp_all
    also have "\<dots> = (2::real) ^ 432"
      by simp
    finally have "r \<le> 2 ^ 432"
      by (simp only: r_def)
    with lo show ?thesis by simp
  qed
  then have "r = 0 \<or> (1 / 2 ^ 1022 \<le> \<bar>r\<bar> \<and> \<bar>r\<bar> \<le> 2 ^ 1023)"
    using tiny huge r_nonneg by linarith
  then obtain d2 where d2: "\<bar>d2\<bar> \<le> 1 / 2 ^ 53" "round_double r = Finite (r * (1 + d2))"
    using round_double_rel [of r] by blast
  define p where "p = a * (1 + d1) * (r * (1 + d2))"
  note f1 = rounding_factor [OF d1(1)] and f2 = rounding_factor [OF d2(1)]
  have "p = 0 \<or> (1 / 2 ^ 1022 \<le> \<bar>p\<bar> \<and> \<bar>p\<bar> \<le> 2 ^ 1023)"
  proof (cases "a = 0 \<or> r = 0")
    case True
    then show ?thesis by (auto simp: p_def)
  next
    case False
    with a_range r_range have ar: "1 / 2 ^ 400 \<le> \<bar>a\<bar>" "\<bar>a\<bar> \<le> 2 ^ 400" "1 / 2 ^ 400 \<le> r" "r \<le> 2 ^ 432"
      by auto
    define u where "u = \<bar>a\<bar> * (1 + d1)"
    define v where "v = r * (1 + d2)"
    have abs_p: "\<bar>p\<bar> = u * v"
      using f1 f2 r_nonneg by (simp add: p_def u_def v_def abs_mult)
    have half: "(0::real) \<le> 1 / 2" "(0::real) \<le> 1 / 2 ^ 400" "(0::real) \<le> 1 / 2 ^ 400 * (1 / 2)"
      by simp_all
    have f1': "0 \<le> 1 + d1" and f2': "0 \<le> 1 + d2"
      using f1 f2 by linarith+
    have u_lo: "1 / 2 ^ 400 * (1 / 2) \<le> u"
      unfolding u_def using ar(1) f1(1) half(2) half(1) by (rule product_lower)
    have v_lo: "1 / 2 ^ 400 * (1 / 2) \<le> v"
      unfolding v_def using ar(3) f2(1) half(2) half(1) by (rule product_lower)
    have "(1 / 2 ^ 400 * (1 / 2)) * (1 / 2 ^ 400 * (1 / 2)) \<le> u * v"
      using u_lo v_lo half(3) half(3) by (rule product_lower)
    moreover have "(1 / 2 ^ 400 * (1 / 2)) * (1 / 2 ^ 400 * (1 / 2)) = (1::real) / 2 ^ 802"
      by simp
    ultimately have lo: "1 / 2 ^ 1022 \<le> \<bar>p\<bar>"
      unfolding abs_p using tiny by linarith
    have u_hi: "u \<le> 2 ^ 400 * 2"
      unfolding u_def using ar(2) f1(2) abs_ge_zero f1' by (rule product_upper)
    have v_hi: "v \<le> 2 ^ 432 * 2"
      unfolding v_def using ar(4) f2(2) r_nonneg f2' by (rule product_upper)
    have "0 \<le> u" "0 \<le> v"
      using u_lo v_lo half(3) by linarith+
    with u_hi v_hi have "u * v \<le> (2 ^ 400 * 2) * (2 ^ 432 * 2)"
      by (rule product_upper)
    moreover have "(2 ^ 400 * 2) * (2 ^ 432 * 2) = (2::real) ^ 834"
      by simp
    ultimately have "\<bar>p\<bar> \<le> 2 ^ 1023"
      unfolding abs_p using huge by linarith
    with lo show ?thesis by simp
  qed
  then obtain d3 where d3: "\<bar>d3\<bar> \<le> 1 / 2 ^ 53" "round_double p = Finite (p * (1 + d3))"
    using round_double_rel [of p] by blast
  have "num_sub (Finite c) (Finite l) = Finite (a * (1 + d1))"
    using d1(2) by (simp add: a_def)
  moreover have "num_div (Finite (real W)) (Finite rw) = Finite (r * (1 + d2))"
    using d2(2) rw_pos by (simp add: r_def)
  ultimately have out: "num_mul (num_sub (Finite c) (Finite l)) (num_div (Finite (real W)) (Finite rw)) =
      Finite (p * (1 + d3))"
    using d3(2) by (simp add: p_def)
  have m: "(c - l) / rw * real W = a * r"
    by (simp add: a_def r_def)
  have "p * (1 + d3) - a * r = a * r * ((1 + d1) * (1 + d2) * (1 + d3) - 1)"
    by (simp add: p_def algebra_simps)
  then have "\<bar>p * (1 + d3) - a * r\<bar> = \<bar>a * r\<bar> * \<bar>(1 + d1) * (1 + d2) * (1 + d3) - 1\<bar>"
    by (simp only: abs_mult)
  also have "\<dots> \<le> \<bar>a * r\<bar> * (1 / 2 ^ 51)"
    using three_roundings [OF d1(1) d2(1) d3(1)] by (intro mult_left_mono) simp_all
  finally have "\<bar>p * (1 + d3) - a * r\<bar> \<le> \<bar>a * r\<bar> / 2 ^ 51"
    by simp
  then show ?thesis
    unfolding out m by (intro exI [of _ "p * (1 + d3)"]) simp
qed

lemma round_double_integer:
  "round_double 0 = Finite 0" "round_double 1 = Finite 1"
  "round_double 100 = Finite 100" "round_double 103 = Finite 103"
proof -
  show "round_double 0 = Finite 0"
    by (simp add: round_double_def)
  show "round_double 1 = Finite 1"
    using round_double_eval [of 0 1 "2 ^ 52"] by simp
  show "round_double 100 = Finite 100"
    using round_double_eval [of 6 100 "100 * 2 ^ 46"] by simp
  show "round_double 103 = Finite 103"
    using round_double_eval [of 6 103 "103 * 2 ^ 46"] by simp
qed

lemma half_of_206:
  "num_mul (num_sub (Finite 103) (Finite 0)) (num_div (Finite (real (512::nat))) (Finite 206)) =
     Finite (256 - 1 / 2 ^ 45)"
proof -
  have scale: "round_double (512 / 206) = Finite (5596706333042946 / 2 ^ 51)"
    using round_double_eval [of 1 "512 / 206" 5596706333042946] by simp
  have prod: "round_double (103 * (5596706333042946 / 2 ^ 51)) = Finite (256 - 1 / 2 ^ 45)"
    using round_double_eval [of 7 "103 * (5596706333042946 / 2 ^ 51)" "2 ^ 53 - 1"] by simp
  have "num_sub (Finite 103) (Finite 0) = Finite 103"
    by (simp add: round_double_integer)
  moreover have "num_div (Finite (real (512::nat))) (Finite 206) = Finite (5596706333042946 / 2 ^ 51)"
    using scale by simp
  moreover have "num_mul (Finite 103) (Finite (5596706333042946 / 2 ^ 51)) = Finite (256 - 1 / 2 ^ 45)"
    using prod by simp
  ultimately show ?thesis
    by (simp only:)
qed

lemma half_of_200:
  "num_mul (num_sub (Finite 100) (Finite 0)) (num_div (Finite (real (512::nat))) (Finite 200)) =
     Finite 256"
proof -
  have scale: "round_double (512 / 200) = Finite (5764607523034235 / 2 ^ 51)"
    using round_double_eval [of 1 "512 / 200" 5764607523034235] by simp
  have prod: "round_double (100 * (5764607523034235 / 2 ^ 51)) = Finite 256"
    using round_double_eval [of 8 "100 * (5764607523034235 / 2 ^ 51)" "2 ^ 52"] by simp
  have "num_sub (Finite 100) (Finite 0) = Finite 100"
    by (simp add: round_double_integer)
  moreover have "num_div (Finite (real (512::nat))) (Finite 200) = Finite (5764607523034235 / 2 ^ 51)"
    using scale by simp
  moreover have "num_mul (Finite 100) (Finite (5764607523034235 / 2 ^ 51)) = Finite 256"
    using prod by simp
  ultimately show ?thesis
    by (simp only:)
qed

lemma origin_row:
  "num_mul (num_sub (Finite 0) (Finite 0)) (num_div (Finite (real (1::nat))) (Finite 1)) = Finite 0"
  by (simp add: round_double_integer)

lemma axis_fraction:
  assumes "pointer_fraction origin extent client = Some u" and "W < 2 ^ 32"
  shows "\<exists>x. num_mul (num_sub client origin) (num_div (Finite (real W)) extent) = Finite x \<and>
             \<bar>x - u * real W\<bar> \<le> \<bar>u * real W\<bar> / 2 ^ 51"
proof -
  from assms(1) obtain l w c where parts: "origin = Finite l" "extent = Finite w" "client = Finite c"
    and w: "0 < w" "in_range w" and a: "c = l \<or> in_range (c - l)" and u: "u = (c - l) / w"
    by (auto simp: pointer_fraction_def split: js_number.splits if_splits)
  have "1 / 2 ^ 400 \<le> w" "w \<le> 2 ^ 400"
    using w by (simp_all add: in_range_def)
  moreover have "c = l \<or> (1 / 2 ^ 400 \<le> \<bar>c - l\<bar> \<and> \<bar>c - l\<bar> \<le> 2 ^ 400)"
    using a by (simp add: in_range_def)
  ultimately show ?thesis
    unfolding parts u using assms(2) by (rule axis_coordinate)
qed

lemma two_roundings_apart:
  fixes x1 x2 m :: real
  assumes "\<bar>x1 - m\<bar> \<le> \<bar>m\<bar> / 2 ^ 51" and "\<bar>x2 - m\<bar> \<le> \<bar>m\<bar> / 2 ^ 51"
  shows "\<bar>x1 - x2\<bar> \<le> \<bar>m\<bar> / 2 ^ 50"
proof -
  have "\<bar>m\<bar> / 2 ^ 51 + \<bar>m\<bar> / 2 ^ 51 = \<bar>m\<bar> / 2 ^ 50"
    by simp
  with assms show ?thesis
    by linarith
qed

text \<open>
  C9, as stated, fails: on a canvas 512 pixels wide the pointer in the middle of the
  displayed width is mapped to \<open>256 - 1 / 2 ^ 45\<close>, in the pixel column 255, when the
  canvas is displayed 206 CSS pixels wide, and to \<open>256\<close>, in the pixel column 256, when it
  is displayed 200 CSS pixels wide.
\<close>

theorem getCanvasCoords_counterexample:
  "pointer_fraction (Finite 0) (Finite 206) (Finite 103) = Some (1 / 2) \<and>
   pointer_fraction (Finite 0) (Finite 200) (Finite 100) = Some (1 / 2) \<and>
   pointer_fraction (Finite 0) (Finite 1) (Finite 0) = Some 0 \<and>
   getCanvasCoords (Some (createCanvas 512 1))
     \<lparr>rect_left = Finite 0, rect_top = Finite 0, rect_width = Finite 206, rect_height = Finite 1\<rparr>
     \<lparr>clientX = Finite 103, clientY = Finite 0\<rparr> = Some (Finite (256 - 1 / 2 ^ 45), Finite 0) \<and>
   getCanvasCoords (Some (createCanvas 512 1))
     \<lparr>rect_left = Finite 0, rect_top = Finite 0, rect_width = Finite 200, rect_height = Finite 1\<rparr>
     \<lparr>clientX = Finite 100, clientY = Finite 0\<rparr> = Some (Finite 256, Finite 0) \<and>
   \<lfloor>256 - 1 / 2 ^ 45 :: real\<rfloor> = 255 \<and> \<lfloor>256 :: real\<rfloor> = 256"
proof -
  have f1: "pointer_fraction (Finite 0) (Finite 206) (Finite 103) = Some (1 / 2)"
    by (simp add: pointer_fraction_def in_range_def)
  have f2: "pointer_fraction (Finite 0) (Finite 200) (Finite 100) = Some (1 / 2)"
    by (simp add: pointer_fraction_def in_range_def)
  have f3: "pointer_fraction (Finite 0) (Finite 1) (Finite 0) = Some 0"
    by (simp add: pointer_fraction_def in_range_def)
  have size: "width (createCanvas 512 1) = 512" "height (createCanvas 512 1) = 1"
    by (simp_all add: createCanvas_def)
  have c1: "getCanvasCoords (Some (createCanvas 512 1))
     \<lparr>rect_left = Finite 0, rect_top = Finite 0, rect_width = Finite 206, rect_height = Finite 1\<rparr>
     \<lparr>clientX = Finite 103, clientY = Finite 0\<rparr> = Some (Finite (256 - 1 / 2 ^ 45), Finite 0)"
    unfolding getCanvasCoords_def Let_def option.case size dom_rect.simps pointer_event.simps
    unfolding half_of_206 origin_row ..
  have c2: "getCanvasCoords (Some (createCanvas 512 1))
     \<lparr>rect_left = Finite 0, rect_top = Finite 0, rect_width = Finite 200, rect_height = Finite 1\<rparr>
     \<lparr>clientX = Finite 100, clientY = Finite 0\<rparr> = Some (Finite 256, Finite 0)"
    unfolding getCanvasCoords_def Let_def option.case size dom_rect.simps pointer_event.simps
    unfolding half_of_200 origin_row ..
  have col1: "\<lfloor>256 - 1 / 2 ^ 45 :: real\<rfloor> = 255"
    by (rule floor_unique) simp_all
  have col2: "\<lfloor>256 :: real\<rfloor> = 256"
    by simp
  show ?thesis
    by (intro conjI) (fact f1, fact f2, fact f3, fact c1, fact c2, fact col1, fact col2)
qed

text \<open>
  C9, amended: the mapping multiplies, in double arithmetic and on each axis apart, the
  offset of the pointer from the corner of the displayed rectangle by the quotient of the
  canvas size and the displayed size. For a canvas of a width and a height below
  \<open>2 ^ 32\<close>, a pointer at the fractions \<open>u\<close> and \<open>v\<close> of the displayed width and height is
  mapped to finite coordinates within the relative error \<open>1 / 2 ^ 51\<close> of \<open>u\<close> times the
  canvas width and \<open>v\<close> times the canvas height, so that two display sizes give coordinates
  that agree up to the relative error \<open>1 / 2 ^ 50\<close>: the same point of the raster up to
  the rounding of three operations, not always the same number.
\<close>

theorem getCanvasCoords_scale_bound:
  assumes "width c < 2 ^ 32" and "height c < 2 ^ 32"
    and "pointer_fraction (rect_left r1) (rect_width r1) (clientX e1) = Some u"
    and "pointer_fraction (rect_top r1) (rect_height r1) (clientY e1) = Some v"
    and "pointer_fraction (rect_left r2) (rect_width r2) (clientX e2) = Some u"
    and "pointer_fraction (rect_top r2) (rect_height r2) (clientY e2) = Some v"
  shows "getCanvasCoords (Some c) r1 e1 =
           Some (num_mul (num_sub (clientX e1) (rect_left r1))
                   (num_div (Finite (real (width c))) (rect_width r1)),
                 num_mul (num_sub (clientY e1) (rect_top r1))
                   (num_div (Finite (real (height c))) (rect_height r1))) \<and>
         (\<exists>x1 y1 x2 y2.
            getCanvasCoords (Some c) r1 e1 = Some (Finite x1, Finite y1) \<and>
            getCanvasCoords (Some c) r2 e2 = Some (Finite x2, Finite y2) \<and>
            \<bar>x1 - u * real (width c)\<bar> \<le> \<bar>u * real (width c)\<bar> / 2 ^ 51 \<and>
            \<bar>y1 - v * real (height c)\<bar> \<le> \<bar>v * real (height c)\<bar> / 2 ^ 51 \<and>
            \<bar>x2 - u * real (width c)\<bar> \<le> \<bar>u * real (width c)\<bar> / 2 ^ 51 \<and>
            \<bar>y2 - v * real (height c)\<bar> \<le> \<bar>v * real (height c)\<bar> / 2 ^ 51 \<and>
            \<bar>x1 - x2\<bar> \<le> \<bar>u * real (width c)\<bar> / 2 ^ 50 \<and>
            \<bar>y1 - y2\<bar> \<le> \<bar>v * real (height c)\<bar> / 2 ^ 50)"
proof -
  have def: "getCanvasCoords (Some c) r e =
           Some (num_mul (num_sub (clientX e) (rect_left r))
                   (num_div (Finite (real (width c))) (rect_width r)),
                 num_mul (num_sub (clientY e) (rect_top r))
                   (num_div (Finite (real (height c))) (rect_height r)))" for r e
    by (simp add: getCanvasCoords_def)
  obtain x1 where x1: "num_mul (num_sub (clientX e1) (rect_left r1))
        (num_div (Finite (real (width c))) (rect_width r1)) = Finite x1"
      "\<bar>x1 - u * real (width c)\<bar> \<le> \<bar>u * real (width c)\<bar> / 2 ^ 51"
    using axis_fraction [OF assms(3) assms(1)] by blast
  obtain y1 where y1: "num_mul (num_sub (clientY e1) (rect_top r1))
        (num_div (Finite (real (height c))) (rect_height r1)) = Finite y1"
      "\<bar>y1 - v * real (height c)\<bar> \<le> \<bar>v * real (height c)\<bar> / 2 ^ 51"
    using axis_fraction [OF assms(4) assms(2)] by blast
  obtain x2 where x2: "num_mul (num_sub (clientX e2) (rect_left r2))
        (num_div (Finite (real (width c))) (rect_width r2)) = Finite x2"
      "\<bar>x2 - u * real (width c)\<bar> \<le> \<bar>u * real (width c)\<bar> / 2 ^ 51"
    using axis_fraction [OF assms(5) assms(1)] by blast
  obtain y2 where y2: "num_mul (num_sub (clientY e2) (rect_top r2))
        (num_div (Finite (real (height c))) (rect_height r2)) = Finite y2"
      "\<bar>y2 - v * real (height c)\<bar> \<le> \<bar>v * real (height c)\<bar> / 2 ^ 51"
    using axis_fraction [OF assms(6) assms(2)] by blast
  have g1: "getCanvasCoords (Some c) r1 e1 = Some (Finite x1, Finite y1)"
    unfolding def x1(1) y1(1) ..
  have g2: "getCanvasCoords (Some c) r2 e2 = Some (Finite x2, Finite y2)"
    unfolding def x2(1) y2(1) ..
  have dx: "\<bar>x1 - x2\<bar> \<le> \<bar>u * real (width c)\<bar> / 2 ^ 50"
    using x1(2) x2(2) by (rule two_roundings_apart)
  have dy: "\<bar>y1 - y2\<bar> \<le> \<bar>v * real (height c)\<bar> / 2 ^ 50"
    using y1(2) y2(2) by (rule two_roundings_apart)
  show ?thesis
    by (intro conjI exI [of _ x1] exI [of _ y1] exI [of _ x2] exI [of _ y2])
       (fact def, fact g1, fact g2, fact x1(2), fact y1(2), fact x2(2), fact y2(2), fact dx, fact dy)
qed

theorem getCanvasCoords_scale_bound_witness:
  "getCanvasCoords (Some (createCanvas 512 1))
     \<lparr>rect_left = Finite 0, rect_top = Finite 0, rect_width = Finite 206, rect_height = Finite 1\<rparr>
     \<lparr>clientX = Finite 103, clientY = Finite 0\<rparr> = Some (Finite (256 - 1 / 2 ^ 45), Finite 0) \<and>
   getCanvasCoords (Some (createCanvas 512 1))
     \<lparr>rect_left = Finite 0, rect_top = Finite 0, rect_width = Finite 200, rect_height = Finite 1\<rparr>
     \<lparr>clientX = Finite 100, clientY = Finite 0\<rparr> = Some (Finite 256, Finite 0) \<and>
   \<bar>(256 - 1 / 2 ^ 45) - 1 / 2 * real (width (createCanvas 512 1))\<bar> \<le>
     \<bar>1 / 2 * real (width (createCanvas 512 1))\<bar> / 2 ^ 51 \<and>
   \<bar>(256 - 1 / 2 ^ 45) - (256 :: real)\<bar> \<le> \<bar>1 / 2 * real (width (createCanvas 512 1))\<bar> / 2 ^ 50"
proof -
  let ?c = "createCanvas 512 1"
  let ?r1 = "\<lparr>rect_left = Finite 0, rect_top = Finite 0, rect_width = Finite 206, rect_height = Finite 1\<rparr>"
  let ?e1 = "\<lparr>clientX = Finite 103, clientY = Finite 0\<rparr>"
  let ?r2 = "\<lparr>rect_left = Finite 0, rect_top = Finite 0, rect_width = Finite 200, rect_height = Finite 1\<rparr>"
  let ?e2 = "\<lparr>clientX = Finite 100, clientY = Finite 0\<rparr>"
  have size: "width ?c = 512" "height ?c = 1"
    by (simp_all add: createCanvas_def)
  have w: "width ?c < 2 ^ 32" and h: "height ?c < 2 ^ 32"
    by (simp_all add: createCanvas_def)
  have u1: "pointer_fraction (rect_left ?r1) (rect_width ?r1) (clientX ?e1) = Some (1 / 2)"
    by (simp add: pointer_fraction_def in_range_def)
  have v1: "pointer_fraction (rect_top ?r1) (rect_height ?r1) (clientY ?e1) = Some 0"
    by (simp add: pointer_fraction_def in_range_def)
  have u2: "pointer_fraction (rect_left ?r2) (rect_width ?r2) (clientX ?e2) = Some (1 / 2)"
    by (simp add: pointer_fraction_def in_range_def)
  have v2: "pointer_fraction (rect_top ?r2) (rect_height ?r2) (clientY ?e2) = Some 0"
    by (simp add: pointer_fraction_def in_range_def)
  note inst = getCanvasCoords_scale_bound [OF w h u1 v1 u2 v2]
  have c1: "getCanvasCoords (Some ?c) ?r1 ?e1 = Some (Finite (256 - 1 / 2 ^ 45), Finite 0)"
    unfolding inst [THEN conjunct1] size dom_rect.simps pointer_event.simps
    unfolding half_of_206 origin_row ..
  have c2: "getCanvasCoords (Some ?c) ?r2 ?e2 = Some (Finite 256, Finite 0)"
    unfolding getCanvasCoords_def Let_def option.case size dom_rect.simps pointer_event.simps
    unfolding half_of_200 origin_row ..
  from inst [THEN conjunct2] obtain x1 y1 x2 y2 where
    g: "getCanvasCoords (Some ?c) ?r1 ?e1 = Some (Finite x1, Finite y1)"
       "getCanvasCoords (Some ?c) ?r2 ?e2 = Some (Finite x2, Finite y2)"
    and b: "\<bar>x1 - 1 / 2 * real (width ?c)\<bar> \<le> \<bar>1 / 2 * real (width ?c)\<bar> / 2 ^ 51"
       "\<bar>x1 - x2\<bar> \<le> \<bar>1 / 2 * real (width ?c)\<bar> / 2 ^ 50"
    by blast
  from g c1 c2 have "x1 = 256 - 1 / 2 ^ 45" "x2 = 256"
    by simp_all
  with b have b1: "\<bar>(256 - 1 / 2 ^ 45) - 1 / 2 * real (width ?c)\<bar> \<le> \<bar>1 / 2 * real (width ?c)\<bar> / 2 ^ 51"
    and b2: "\<bar>(256 - 1 / 2 ^ 45) - (256 :: real)\<bar> \<le> \<bar>1 / 2 * real (width ?c)\<bar> / 2 ^ 50"
    by (simp_all only:)
  show ?thesis
    by (intro conjI) (fact c1, fact c2, fact b1, fact b2)
qed

end
